theory Spec2Isabelle
  imports Complex_Main "HOL-Library.Multiset"
begin

section \<open>Numeric cells of a table\<close>

text \<open>
  Both stages work on pandas columns of float64 cells. A cell is modelled as a finite
  number, an infinity, or NaN (which pandas also uses for a missing value). Finite
  numbers are exact reals: the rounding error of binary floating point and the sign of
  zero are not part of the model, the special values that the operations of the program
  produce (division by zero, logarithm outside its domain) are.
\<close>

datatype fnum = Num real | PosInf | NegInf | NaN

fun fneg :: "fnum \<Rightarrow> fnum" where
  "fneg (Num a) = Num (- a)"
| "fneg PosInf = NegInf"
| "fneg NegInf = PosInf"
| "fneg NaN = NaN"

fun fadd :: "fnum \<Rightarrow> fnum \<Rightarrow> fnum" where
  "fadd NaN y = NaN"
| "fadd x NaN = NaN"
| "fadd (Num a) (Num b) = Num (a + b)"
| "fadd (Num a) y = y"
| "fadd x (Num b) = x"
| "fadd x y = (if x = y then x else NaN)"

definition fsub :: "fnum \<Rightarrow> fnum \<Rightarrow> fnum" where
  "fsub x y = fadd x (fneg y)"

text \<open>An infinity times a finite factor: the sign follows the factor, and times 0 is NaN.\<close>

definition inf_times :: "fnum \<Rightarrow> real \<Rightarrow> fnum" where
  "inf_times x a = (if 0 < a then x else if a < 0 then fneg x else NaN)"

fun fmul :: "fnum \<Rightarrow> fnum \<Rightarrow> fnum" where
  "fmul NaN y = NaN"
| "fmul x NaN = NaN"
| "fmul (Num a) (Num b) = Num (a * b)"
| "fmul (Num a) y = inf_times y a"
| "fmul x (Num b) = inf_times x b"
| "fmul x y = (if x = y then PosInf else NegInf)"

text \<open>
  numpy division does not raise: a finite number over 0 is an infinity of its sign,
  0 / 0 and infinity / infinity are NaN.
\<close>

fun fdiv :: "fnum \<Rightarrow> fnum \<Rightarrow> fnum" where
  "fdiv NaN y = NaN"
| "fdiv x NaN = NaN"
| "fdiv (Num a) (Num b) =
     (if b = 0 then (if 0 < a then PosInf else if a < 0 then NegInf else NaN)
      else Num (a / b))"
| "fdiv (Num a) y = Num 0"
| "fdiv x (Num b) = (if b < 0 then fneg x else x)"
| "fdiv x y = NaN"

text \<open>Comparisons with NaN are false, also \<open>NaN == NaN\<close>.\<close>

fun fless :: "fnum \<Rightarrow> fnum \<Rightarrow> bool" where
  "fless NaN y = False"
| "fless x NaN = False"
| "fless (Num a) (Num b) = (a < b)"
| "fless NegInf y = (y \<noteq> NegInf)"
| "fless x PosInf = (x \<noteq> PosInf)"
| "fless x y = False"

fun feq :: "fnum \<Rightarrow> fnum \<Rightarrow> bool" where
  "feq NaN y = False"
| "feq x NaN = False"
| "feq x y = (x = y)"

text \<open>A raw cell read from the input file: a number, or missing.\<close>

definition of_cell :: "real option \<Rightarrow> fnum" where
  "of_cell c = (case c of None \<Rightarrow> NaN | Some x \<Rightarrow> Num x)"

definition fillna :: "real \<Rightarrow> fnum list \<Rightarrow> fnum list" where
  "fillna v s = map (\<lambda>x. if x = NaN then Num v else x) s"

text \<open>\<open>Series.min()\<close> and \<open>Series.max()\<close> skip NaN; with nothing left they return NaN.\<close>

fun nanmin2 :: "fnum \<Rightarrow> fnum \<Rightarrow> fnum" where
  "nanmin2 NaN y = y"
| "nanmin2 x NaN = x"
| "nanmin2 x y = (if fless y x then y else x)"

fun nanmax2 :: "fnum \<Rightarrow> fnum \<Rightarrow> fnum" where
  "nanmax2 NaN y = y"
| "nanmax2 x NaN = x"
| "nanmax2 x y = (if fless x y then y else x)"

definition series_min :: "fnum list \<Rightarrow> fnum" where
  "series_min s = foldr nanmin2 s NaN"

definition series_max :: "fnum list \<Rightarrow> fnum" where
  "series_max s = foldr nanmax2 s NaN"

section \<open>Stage 1: the normalizer\<close>

text \<open>\<open>np.log1p\<close>: minus infinity at -1 and NaN below it.\<close>

definition log1p :: "fnum \<Rightarrow> fnum" where
  "log1p x = (case x of
       Num a \<Rightarrow> (if -1 < a then Num (ln (1 + a)) else if a = -1 then NegInf else NaN)
     | PosInf \<Rightarrow> PosInf
     | NegInf \<Rightarrow> NaN
     | NaN \<Rightarrow> NaN)"

text \<open>Steps 1 and 2 of \<open>normalize_score\<close>: fill missing values with 0, then the optional log.\<close>

definition transformed :: "real option list \<Rightarrow> bool \<Rightarrow> fnum list" where
  "transformed series log_scale =
     (let filled = fillna 0 (map of_cell series)
      in if log_scale then map log1p filled else filled)"

definition normalize_score :: "real option list \<Rightarrow> bool \<Rightarrow> bool \<Rightarrow> fnum list" where
  "normalize_score series reverse log_scale =
     (let s = transformed series log_scale;
          min_val = series_min s;
          max_val = series_max s
      in if feq max_val min_val then replicate (length s) (Num 50)
         else let normalized =
                    map (\<lambda>x. fmul (fdiv (fsub x min_val) (fsub max_val min_val)) (Num 100)) s
              in if reverse then map (\<lambda>x. fsub (Num 100) x) normalized else normalized)"


text \<open>
  The number that steps 1 and 2 give for a raw cell when the log is taken inside its
  domain; only used to state and prove properties.
\<close>

definition cell_value :: "bool \<Rightarrow> real option \<Rightarrow> real" where
  "cell_value log_scale c =
     (let a = (case c of None \<Rightarrow> 0 | Some x \<Rightarrow> x) in if log_scale then ln (1 + a) else a)"

section \<open>Stage 1: the viability scorer\<close>

record settlement =
  name :: string
  pop :: "real option"
  pop_den :: "real option"
  nightlight_intensity :: "real option"
  commercial_facilities_count :: "real option"
  solar_ghi :: "real option"
  distance_to_grid_km :: "real option"
  schools_count :: "real option"
  health_facilities_count :: "real option"

record scored = settlement +
  market_size_score :: fnum
  revenue_potential_score :: fnum
  cost_efficiency_score :: fnum
  accessibility_score :: fnum
  strategic_value_score :: int
  total_score :: fnum

datatype tier = Low | Medium | High

record ranked = scored +
  rank :: nat
  viability_tier :: "tier option"

text \<open>Column arithmetic: a series times a scalar, and the sum of two series.\<close>

definition times_scalar :: "fnum list \<Rightarrow> real \<Rightarrow> fnum list" where
  "times_scalar s w = map (\<lambda>x. fmul x (Num w)) s"

definition plus_series :: "fnum list \<Rightarrow> fnum list \<Rightarrow> fnum list" where
  "plus_series a b = map2 fadd a b"

definition market_size_column :: "settlement list \<Rightarrow> fnum list" where
  "market_size_column t =
     plus_series (times_scalar (normalize_score (map pop t) False True) 0.7)
                 (times_scalar (normalize_score (map pop_den t) False True) 0.3)"

definition revenue_potential_column :: "settlement list \<Rightarrow> fnum list" where
  "revenue_potential_column t =
     plus_series (times_scalar (normalize_score (map nightlight_intensity t) False True) 0.6)
                 (times_scalar (normalize_score (map commercial_facilities_count t) False False) 0.4)"

definition cost_efficiency_column :: "settlement list \<Rightarrow> fnum list" where
  "cost_efficiency_column t =
     plus_series (times_scalar (normalize_score (map solar_ghi t) False False) 0.7)
                 (times_scalar (normalize_score (map distance_to_grid_km t) False False) 0.3)"

definition accessibility_column :: "settlement list \<Rightarrow> fnum list" where
  "accessibility_column t =
     plus_series
       (plus_series (times_scalar (normalize_score (map schools_count t) False False) 0.4)
                    (times_scalar (normalize_score (map health_facilities_count t) False False) 0.4))
       (times_scalar (normalize_score (map commercial_facilities_count t) False False) 0.2)"

text \<open>\<open>(column > 0).astype(int)\<close>: a missing count compares false.\<close>

definition positive_flag :: "real option \<Rightarrow> int" where
  "positive_flag c = (if fless (Num 0) (of_cell c) then 1 else 0)"

definition anchor_score :: "settlement \<Rightarrow> int" where
  "anchor_score s =
     positive_flag (health_facilities_count s) * 60 + positive_flag (schools_count s) * 40"

text \<open>
  The weight table in its insertion order; Python's \<open>sum\<close> starts from 0 and adds
  \<open>column * weight\<close> from left to right.
\<close>

definition weighted_total :: "fnum \<Rightarrow> fnum \<Rightarrow> fnum \<Rightarrow> fnum \<Rightarrow> int \<Rightarrow> fnum" where
  "weighted_total m v c a s =
     fadd (fadd (fadd (fadd (fadd (Num 0) (fmul m (Num 0.25))) (fmul v (Num 0.25)))
                      (fmul c (Num 0.20)))
                (fmul a (Num 0.15)))
          (fmul (Num (real_of_int s)) (Num 0.15))"

definition score_row :: "settlement list \<Rightarrow> nat \<Rightarrow> scored" where
  "score_row t i =
     (let m = market_size_column t ! i;
          v = revenue_potential_column t ! i;
          c = cost_efficiency_column t ! i;
          a = accessibility_column t ! i;
          s = anchor_score (t ! i)
      in settlement.extend (t ! i)
           (scored.fields m v c a s (weighted_total m v c a s)))"

definition score_table :: "settlement list \<Rightarrow> scored list" where
  "score_table t = map (score_row t) [0..<length t]"

text \<open>
  \<open>sort_values('total_score', ascending=False)\<close> is called with the default
  \<open>kind='quicksort'\<close>, which pandas documents as not stable, and the default
  \<open>na_position='last'\<close>. So the call is modelled by what it guarantees: the result
  is a rearrangement of the rows in which no row comes before a row of larger
  total score and NaN scores come last. \<open>may_precede x y\<close> says that a row of score
  \<open>x\<close> may stand before a row of score \<open>y\<close>.
\<close>

definition may_precede :: "fnum \<Rightarrow> fnum \<Rightarrow> bool" where
  "may_precede x y = (y = NaN \<or> (x \<noteq> NaN \<and> \<not> fless x y))"

definition sort_values_desc :: "scored list \<Rightarrow> scored list \<Rightarrow> bool" where
  "sort_values_desc xs ys =
     (mset ys = mset xs \<and> sorted_wrt (\<lambda>a b. may_precede (total_score a) (total_score b)) ys)"

text \<open>
  \<open>pd.cut(total_score, bins=[0, 40, 70, 100], labels=['Low', 'Medium', 'High'])\<close> with
  the defaults \<open>right=True\<close> and \<open>include_lowest=False\<close>: the bins are (0,40], (40,70]
  and (70,100], and a value in none of them gets no label.
\<close>

definition pd_cut :: "fnum \<Rightarrow> tier option" where
  "pd_cut x =
     (if fless (Num 0) x \<and> \<not> fless (Num 40) x \<and> x \<noteq> NaN then Some Low
      else if fless (Num 40) x \<and> \<not> fless (Num 70) x \<and> x \<noteq> NaN then Some Medium
      else if fless (Num 70) x \<and> \<not> fless (Num 100) x \<and> x \<noteq> NaN then Some High
      else None)"

definition rank_row :: "scored list \<Rightarrow> nat \<Rightarrow> ranked" where
  "rank_row ys i =
     scored.extend (ys ! i) (ranked.fields (i + 1) (pd_cut (total_score (ys ! i))))"

definition rank_and_tier :: "scored list \<Rightarrow> ranked list" where
  "rank_and_tier ys = map (rank_row ys) [0..<length ys]"

text \<open>
  The stage after loading: every table that the sort may return, ranked and tiered, is
  a possible output.
\<close>

inductive calculate_viability_scores :: "settlement list \<Rightarrow> ranked list \<Rightarrow> bool" where
  scores: "sort_values_desc (score_table t) ys \<Longrightarrow>
           calculate_viability_scores t (rank_and_tier ys)"



section \<open>Stage 2: the financial projections\<close>

text \<open>The global assumptions of the module.\<close>

definition CUSTOMER_PENETRATION :: real where "CUSTOMER_PENETRATION = 0.30"
definition AVG_HOUSEHOLD_SIZE :: real where "AVG_HOUSEHOLD_SIZE = 5"
definition DAILY_KWH_PER_CUSTOMER :: real where "DAILY_KWH_PER_CUSTOMER = 1.0"
definition SYSTEM_OVERSIZING :: real where "SYSTEM_OVERSIZING = 1.45"
definition BASELINE_GHI :: real where "BASELINE_GHI = 5.5"
definition CAPEX_PER_KW :: real where "CAPEX_PER_KW = 3000.0"
definition OPEX_PERCENT :: real where "OPEX_PERCENT = 0.04"
definition TARIFF_PER_KWH :: real where "TARIFF_PER_KWH = 0.60"
definition COLLECTION_RATE :: real where "COLLECTION_RATE = 0.85"
definition DISCOUNT_RATE :: real where "DISCOUNT_RATE = 0.12"
definition PROJECT_LIFETIME :: int where "PROJECT_LIFETIME = 10"

text \<open>
  The stage reads the table that stage 1 wrote; of its columns it uses \<open>pop\<close>,
  \<open>solar_ghi\<close> and \<open>distance_to_grid_km\<close>. The score columns are carried through
  untouched and are left out of the row type. Loading the file, printing the summary
  and writing the two files are not modelled; the two tables that are written are the
  result.
\<close>

record projection = settlement +
  estimated_customers :: int
  estimated_demand_kwh_day :: fnum
  system_size_kw :: fnum
  capex_estimate_usd :: fnum
  opex_annual_usd :: fnum
  revenue_annual_usd :: fnum
  annual_cashflow_usd :: fnum
  payback_years :: fnum
  npv_10yr_usd :: fnum
  simple_yield_percent :: fnum

datatype error = IntCastingNaNError | ZeroDivisionError

text \<open>
  \<open>astype(int)\<close> cuts the fraction off (towards zero) and raises on NaN and on an
  infinity.
\<close>

definition toward_zero :: "real \<Rightarrow> int" where
  "toward_zero a = (if 0 \<le> a then \<lfloor>a\<rfloor> else \<lceil>a\<rceil>)"

definition astype_int :: "fnum \<Rightarrow> error + int" where
  "astype_int x = (case x of
       Num a \<Rightarrow> Inr (toward_zero a)
     | PosInf \<Rightarrow> Inl IntCastingNaNError
     | NegInf \<Rightarrow> Inl IntCastingNaNError
     | NaN \<Rightarrow> Inl IntCastingNaNError)"

definition customers_of :: "settlement \<Rightarrow> error + int" where
  "customers_of s =
     (let households = fdiv (of_cell (pop s)) (Num AVG_HOUSEHOLD_SIZE)
      in astype_int (fmul households (Num CUSTOMER_PENETRATION)))"

text \<open>\<open>solar_ghi.fillna(BASELINE_GHI).replace(0, BASELINE_GHI) / BASELINE_GHI\<close>\<close>

definition ghi_factor :: "settlement \<Rightarrow> fnum" where
  "ghi_factor s =
     (let filled = (case solar_ghi s of None \<Rightarrow> BASELINE_GHI | Some g \<Rightarrow> g);
          replaced = (if filled = 0 then BASELINE_GHI else filled)
      in fdiv (Num replaced) (Num BASELINE_GHI))"

definition annuity_factor :: real where
  "annuity_factor = (1 - (1 + DISCOUNT_RATE) powi (- PROJECT_LIFETIME)) / DISCOUNT_RATE"

text \<open>\<open>np.where(annual_cashflow > 0, capex / annual_cashflow, 999)\<close>\<close>

definition payback_of :: "fnum \<Rightarrow> fnum \<Rightarrow> fnum" where
  "payback_of capex annual_cashflow =
     (if fless (Num 0) annual_cashflow then fdiv capex annual_cashflow else Num 999)"

text \<open>
  The yield: the quotient times 100, then \<open>replace([inf, -inf], 0)\<close> and \<open>fillna(0)\<close>.
\<close>

definition replace_inf :: "fnum \<Rightarrow> fnum" where
  "replace_inf x = (if x = PosInf \<or> x = NegInf then Num 0 else x)"

definition fillna_cell :: "real \<Rightarrow> fnum \<Rightarrow> fnum" where
  "fillna_cell v x = (if x = NaN then Num v else x)"

definition simple_yield_of :: "fnum \<Rightarrow> fnum \<Rightarrow> fnum" where
  "simple_yield_of annual_cashflow capex =
     fillna_cell 0 (replace_inf (fmul (fdiv annual_cashflow capex) (Num 100)))"

text \<open>Phases 1 to 3 for one row, given its customer count.\<close>

definition project_row :: "settlement \<Rightarrow> int \<Rightarrow> projection" where
  "project_row s customers =
     (let demand = fmul (Num (real_of_int customers)) (Num DAILY_KWH_PER_CUSTOMER);
          size = fmul (fdiv demand (fmul (ghi_factor s) (Num 4))) (Num SYSTEM_OVERSIZING);
          logistics_mult =
            fadd (Num 1) (fmul (fdiv (of_cell (distance_to_grid_km s)) (Num 100)) (Num 0.1));
          capex = fmul (fmul size (Num CAPEX_PER_KW)) logistics_mult;
          opex = fmul capex (Num OPEX_PERCENT);
          annual_energy_sales = fmul demand (Num 365);
          revenue = fmul (fmul annual_energy_sales (Num TARIFF_PER_KWH)) (Num COLLECTION_RATE);
          annual_cashflow = fsub revenue opex;
          payback = payback_of capex annual_cashflow;
          npv = fadd (fneg capex) (fmul annual_cashflow (Num annuity_factor));
          yield = simple_yield_of annual_cashflow capex
      in settlement.extend s
           (projection.fields customers demand size capex opex revenue annual_cashflow
              payback npv yield))"

text \<open>
  The columns are computed for the whole table at once, so one population that is
  missing makes the cast raise and the run ends without output.
\<close>

fun project_table :: "settlement list \<Rightarrow> error + projection list" where
  "project_table [] = Inr []"
| "project_table (s # t) =
     (case customers_of s of
        Inl e \<Rightarrow> Inl e
      | Inr n \<Rightarrow> (case project_table t of
                   Inl e \<Rightarrow> Inl e
                 | Inr rows \<Rightarrow> Inr (project_row s n # rows)))"

text \<open>Definition of viable: positive NPV and payback below 7 years.\<close>

definition is_viable :: "projection \<Rightarrow> bool" where
  "is_viable r = (fless (Num 0) (npv_10yr_usd r) \<and> fless (payback_years r) (Num 7))"

text \<open>
  \<open>round(1)\<close>: numpy multiplies by 10, rounds to the nearest integer with halves going
  to the even one, and divides by 10; NaN and the infinities stay.
\<close>

definition rint :: "real \<Rightarrow> int" where
  "rint x =
     (let f = \<lfloor>x\<rfloor>; d = x - of_int f
      in if d < 1 / 2 then f else if 1 / 2 < d then f + 1 else if even f then f else f + 1)"

definition round1 :: "fnum \<Rightarrow> fnum" where
  "round1 x = (case x of Num a \<Rightarrow> Num (of_int (rint (a * 10)) / 10) | _ \<Rightarrow> x)"

text \<open>
  \<open>cols_to_round\<close> names six columns; \<open>opex_annual_usd\<close>, \<open>annual_cashflow_usd\<close>,
  \<open>estimated_customers\<close> and \<open>estimated_demand_kwh_day\<close> are not among them.
\<close>

definition round_columns :: "projection \<Rightarrow> projection" where
  "round_columns r =
     r\<lparr>system_size_kw := round1 (system_size_kw r),
       capex_estimate_usd := round1 (capex_estimate_usd r),
       revenue_annual_usd := round1 (revenue_annual_usd r),
       npv_10yr_usd := round1 (npv_10yr_usd r),
       payback_years := round1 (payback_years r),
       simple_yield_percent := round1 (simple_yield_percent r)\<rparr>"

text \<open>
  Phase 4 works on two variables: \<open>settlements\<close>, the full table, which goes to the
  GeoJSON file, and \<open>viable_sites\<close>, which goes to the CSV file. The filter copies the
  viable rows out of the full table; the rounding then assigns the rounded columns to
  the full table.
\<close>

record frames =
  settlements :: "projection list"
  viable_sites :: "projection list"

definition filter_step :: "projection list \<Rightarrow> frames" where
  "filter_step rows = \<lparr>settlements = rows, viable_sites = filter is_viable rows\<rparr>"

definition rounding_step :: "frames \<Rightarrow> frames" where
  "rounding_step st = st\<lparr>settlements := map round_columns (settlements st)\<rparr>"

text \<open>
  The summary divides by the number of sites, so an empty table raises before anything
  is written.
\<close>

definition run_financial_projections :: "settlement list \<Rightarrow> error + frames" where
  "run_financial_projections t =
     (case project_table t of
        Inl e \<Rightarrow> Inl e
      | Inr rows \<Rightarrow>
          (let st = rounding_step (filter_step rows)
           in if length (settlements st) = 0 then Inl ZeroDivisionError else Inr st))"

section \<open>Example tables\<close>

text \<open>Small input tables on which the theorems below are evaluated.\<close>

definition blank :: "string \<Rightarrow> settlement" where
  "blank n = \<lparr>name = n, pop = None, pop_den = None, nightlight_intensity = None,
     commercial_facilities_count = None, solar_ghi = None, distance_to_grid_km = None,
     schools_count = None, health_facilities_count = None\<rparr>"

definition two_sites :: "settlement list" where
  "two_sites = [blank ''A'', (blank ''B'')\<lparr>pop := Some 9\<rparr>]"

definition site :: "string \<Rightarrow> real option \<Rightarrow> real option \<Rightarrow> real option \<Rightarrow> settlement" where
  "site n p g d = (blank n)\<lparr>pop := p, solar_ghi := g, distance_to_grid_km := d\<rparr>"


definition negative_sites :: "settlement list" where
  "negative_sites = [(blank ''A'')\<lparr>pop := Some (-5)\<rparr>, (blank ''B'')\<lparr>pop := Some 3\<rparr>,
     (blank ''C'')\<lparr>pop := Some 7\<rparr>]"

definition busy :: "string \<Rightarrow> settlement" where
  "busy n = \<lparr>name = n, pop = Some 9, pop_den = Some 9, nightlight_intensity = Some 9,
     commercial_facilities_count = Some 1, solar_ghi = Some 5, distance_to_grid_km = Some 10,
     schools_count = Some 1, health_facilities_count = Some 1\<rparr>"

definition zero_sites :: "settlement list" where
  "zero_sites = [blank ''A'', busy ''B'']"

definition pipeline_sites :: "settlement list" where
  "pipeline_sites =
     [site ''A'' (Some 1000) (Some 8.25) (Some 0), site ''Z'' (Some 0) None (Some 0)]"

definition pipeline_rows :: "projection list" where
  "pipeline_rows = [project_row (pipeline_sites ! 0) 60, project_row (pipeline_sites ! 1) 0]"

definition small_site :: "settlement list" where
  "small_site = [site ''S'' (Some 17) None (Some 0)]"

definition remote_site :: "settlement list" where
  "remote_site = [site ''R'' (Some 17) None (Some 1)]"

definition negative_pop :: "settlement list" where
  "negative_pop = [site ''N'' (Some (-1)) None (Some 0)]"

definition marginal_site :: "settlement list" where
  "marginal_site = [site ''M'' (Some 17) (Some 7) (Some 4)]"

section \<open>Input domains\<close>

text \<open>
  The log-scaled metrics of a settlement (population, population density, nightlight
  intensity) lie in the domain of \<open>log(1+x)\<close> when each is missing or above -1.
\<close>

definition above_minus_one :: "real option \<Rightarrow> bool" where
  "above_minus_one c = (case c of None \<Rightarrow> True | Some x \<Rightarrow> -1 < x)"

definition within_log_domain :: "settlement \<Rightarrow> bool" where
  "within_log_domain s =
     (above_minus_one (pop s) \<and> above_minus_one (pop_den s) \<and>
      above_minus_one (nightlight_intensity s))"

section \<open>Properties of the normalizer\<close>

lemma series_min_Num:
  "series_min (map Num vs) = (if vs = [] then NaN else Num (Min (set vs)))"
proof (induction vs)
  case Nil
  show ?case by (simp add: series_min_def)
next
  case (Cons v vs)
  then show ?case
    by (cases "vs = []") (auto simp: series_min_def min_def Min_insert2 not_less intro: antisym)
qed

lemma series_max_Num:
  "series_max (map Num vs) = (if vs = [] then NaN else Num (Max (set vs)))"
proof (induction vs)
  case Nil
  show ?case by (simp add: series_max_def)
next
  case (Cons v vs)
  then show ?case
    by (cases "vs = []") (auto simp: series_max_def max_def not_less intro: antisym)
qed

lemma transformed_Num:
  assumes "log_scale \<longrightarrow> (\<forall>x. Some x \<in> set series \<longrightarrow> -1 < x)"
  shows "transformed series log_scale = map Num (map (cell_value log_scale) series)"
  using assms
  by (induction series)
     (auto simp: transformed_def fillna_def of_cell_def log1p_def cell_value_def split: option.splits)

lemma fsub_Num: "fsub (Num a) (Num b) = Num (a - b)"
  by (simp add: fsub_def)

lemma normalize_score_Num:
  "transformed series log_scale = map Num vs \<Longrightarrow>
   normalize_score series reverse log_scale =
     (if vs = [] \<or> Max (set vs) = Min (set vs) then replicate (length vs) (Num 50)
      else map (\<lambda>v. Num (if reverse then 100 - (v - Min (set vs)) / (Max (set vs) - Min (set vs)) * 100
                          else (v - Min (set vs)) / (Max (set vs) - Min (set vs)) * 100)) vs)"
  by (auto simp: normalize_score_def series_min_Num series_max_Num fsub_Num Let_def)

lemma normalize_score_length:
  "length (normalize_score series reverse log_scale) = length series"
  by (simp add: normalize_score_def transformed_def fillna_def Let_def)

text \<open>
  Claim C1, as amended. Let the column be such that, when \<open>log_scale\<close> is set, every
  value present in it is greater than -1 (a missing value is filled with 0), so that
  \<open>log(1+x)\<close> is a number for every element. Then the values after steps 1 and 2 are
  numbers \<open>vs\<close>; if they are not all identical, every element gets a score in [0,100],
  an element with the minimum value gets 0 and one with the maximum gets 100 (100 and 0
  when \<open>reverse\<close> is set); if they are all identical, every element gets 50.
\<close>

theorem normalize_score_range:
  assumes "log_scale \<longrightarrow> (\<forall>x. Some x \<in> set series \<longrightarrow> -1 < x)"
  shows "\<exists>vs. transformed series log_scale = map Num vs \<and>
     length (normalize_score series reverse log_scale) = length series \<and>
     ((\<exists>a\<in>set vs. \<exists>b\<in>set vs. a \<noteq> b) \<longrightarrow>
        (\<forall>i<length series. \<exists>y.
            normalize_score series reverse log_scale ! i = Num y \<and> 0 \<le> y \<and> y \<le> 100 \<and>
            (vs ! i = Min (set vs) \<longrightarrow> y = (if reverse then 100 else 0)) \<and>
            (vs ! i = Max (set vs) \<longrightarrow> y = (if reverse then 0 else 100)))) \<and>
     ((\<forall>a\<in>set vs. \<forall>b\<in>set vs. a = b) \<longrightarrow>
        normalize_score series reverse log_scale = replicate (length series) (Num 50))"
proof -
  define vs where "vs = map (cell_value log_scale) series"
  have tr: "transformed series log_scale = map Num vs"
    unfolding vs_def by (rule transformed_Num [OF assms])
  have len: "length vs = length series"
    by (simp add: vs_def)
  note ns = normalize_score_Num [OF tr, of reverse]
  have degenerate: "normalize_score series reverse log_scale = replicate (length series) (Num 50)"
    if same: "\<forall>a\<in>set vs. \<forall>b\<in>set vs. a = b"
  proof (cases "vs = []")
    case True
    then show ?thesis using ns len by simp
  next
    case False
    then have "Max (set vs) \<in> set vs" "Min (set vs) \<in> set vs"
      by simp_all
    with same have "Max (set vs) = Min (set vs)" by blast
    then show ?thesis using ns len by simp
  qed
  have scaled: "\<exists>y. normalize_score series reverse log_scale ! i = Num y \<and> 0 \<le> y \<and> y \<le> 100 \<and>
            (vs ! i = Min (set vs) \<longrightarrow> y = (if reverse then 100 else 0)) \<and>
            (vs ! i = Max (set vs) \<longrightarrow> y = (if reverse then 0 else 100))"
    if differ: "\<exists>a\<in>set vs. \<exists>b\<in>set vs. a \<noteq> b" and i: "i < length series" for i
  proof -
    from differ have ne: "vs \<noteq> []" by auto
    let ?lo = "Min (set vs)" and ?hi = "Max (set vs)"
    from differ obtain a b where ab: "a \<in> set vs" "b \<in> set vs" "a \<noteq> b" by blast
    have "?lo \<le> a" "?lo \<le> b" "a \<le> ?hi" "b \<le> ?hi"
      using ab by simp_all
    with ab have lt: "?lo < ?hi" by linarith
    have mem: "vs ! i \<in> set vs" using i len by simp
    then have bounds: "?lo \<le> vs ! i" "vs ! i \<le> ?hi" by simp_all
    define q where "q = (vs ! i - ?lo) / (?hi - ?lo) * 100"
    have q0: "0 \<le> q" using bounds lt by (simp add: q_def)
    have q100: "q \<le> 100" using bounds lt by (simp add: q_def divide_le_eq)
    have qlo: "vs ! i = ?lo \<Longrightarrow> q = 0" by (simp add: q_def)
    have qhi: "vs ! i = ?hi \<Longrightarrow> q = 100" using lt by (simp add: q_def)
    have "normalize_score series reverse log_scale ! i = Num (if reverse then 100 - q else q)"
      using ns ne lt i len by (simp add: q_def)
    then show ?thesis using q0 q100 qlo qhi by auto
  qed
  show ?thesis
    using tr normalize_score_length degenerate scaled by blast
qed

text \<open>
  The theorem at the column \<open>[0, missing, 3]\<close> with log scale and reverse: it fixes
  all three scores.
\<close>

theorem normalize_score_range_witness:
  "(-1::real) < 0 \<and> (-1::real) < 3 \<and>
   normalize_score [Some 0, None, Some 3] True True = [Num 100, Num 100, Num 0]"
proof -
  let ?c = "[Some 0, None, Some (3::real)]"
  have h: "True \<longrightarrow> (\<forall>x. Some x \<in> set ?c \<longrightarrow> -1 < x)"
    by auto
  from normalize_score_range [OF h, of True]
  obtain vs where tr: "transformed ?c True = map Num vs"
    and len: "length (normalize_score ?c True True) = length ?c"
    and sc: "(\<exists>a\<in>set vs. \<exists>b\<in>set vs. a \<noteq> b) \<longrightarrow>
        (\<forall>i<length ?c. \<exists>y. normalize_score ?c True True ! i = Num y \<and> 0 \<le> y \<and> y \<le> 100 \<and>
            (vs ! i = Min (set vs) \<longrightarrow> y = (if True then 100 else 0)) \<and>
            (vs ! i = Max (set vs) \<longrightarrow> y = (if True then 0 else 100)))"
    by blast
  have "transformed ?c True = map Num [0, 0, ln 4]"
    by (simp add: transformed_def fillna_def of_cell_def log1p_def)
  with tr have "map Num vs = map Num [0, 0, ln 4]"
    by (rule trans [OF sym])
  then have vs: "vs = [0, 0, ln 4]"
    by (rule map_injective) (simp add: inj_def)
  have pos: "0 < ln (4::real)" by simp
  then have mm: "Min (set vs) = 0" "Max (set vs) = ln 4" 
    using vs by (simp_all add: min_def max_def)
  have "\<exists>a\<in>set vs. \<exists>b\<in>set vs. a \<noteq> b"
    using vs pos by auto
  with sc have *: "\<And>i. i < length ?c \<Longrightarrow> \<exists>y. normalize_score ?c True True ! i = Num y \<and>
            (vs ! i = Min (set vs) \<longrightarrow> y = 100) \<and> (vs ! i = Max (set vs) \<longrightarrow> y = 0)"
    by fastforce
  have "normalize_score ?c True True ! 0 = Num 100"
    using * [of 0] vs mm by auto
  moreover have "normalize_score ?c True True ! 1 = Num 100"
    using * [of 1] vs mm by auto
  moreover have "normalize_score ?c True True ! 2 = Num 0"
    using * [of 2] vs mm by auto
  ultimately have "normalize_score ?c True True = [Num 100, Num 100, Num 0]"
    using len by (simp add: list_eq_iff_nth_eq less_Suc_eq numeral_3_eq_3 numeral_2_eq_2)
  then show ?thesis by simp
qed

text \<open>
  Claim C1 as stated fails where the log leaves its domain. For the column \<open>[-5, 3, 7]\<close>
  with \<open>log_scale\<close> the values after step 2 are NaN, ln 4 and ln 8, which are not all
  identical, and the first element's score is NaN, not a number in [0,100]. For the
  column \<open>[-5, -5]\<close> of identical values the result is NaN twice, not 50.
\<close>

theorem normalize_score_range_counterexample:
  "transformed [Some (-5), Some 3, Some 7] True = [NaN, Num (ln 4), Num (ln 8)] \<and>
   ln 4 \<noteq> (ln 8 :: real) \<and>
   normalize_score [Some (-5), Some 3, Some 7] False True ! 0 = NaN \<and>
   normalize_score [Some (-5), Some (-5)] False True = [NaN, NaN]"
  by (simp add: normalize_score_def transformed_def fillna_def of_cell_def log1p_def series_min_def series_max_def fsub_def)

section \<open>Properties of the viability scorer\<close>

lemma may_precede_Num [simp]: "may_precede (Num a) (Num b) \<longleftrightarrow> b \<le> a"
  by (simp add: may_precede_def not_less)







lemma length_rank_and_tier [simp]: "length (rank_and_tier ys) = length ys"
  by (simp add: rank_and_tier_def)

lemma nth_rank_and_tier:
  "i < length ys \<Longrightarrow> rank_and_tier ys ! i = rank_row ys i"
  by (simp add: rank_and_tier_def)

lemma rank_row_simps [simp]:
  "rank (rank_row ys i) = i + 1"
  "viability_tier (rank_row ys i) = pd_cut (total_score (ys ! i))"
  "total_score (rank_row ys i) = total_score (ys ! i)"
  "name (rank_row ys i) = name (ys ! i)"
  "market_size_score (rank_row ys i) = market_size_score (ys ! i)"
  "revenue_potential_score (rank_row ys i) = revenue_potential_score (ys ! i)"
  "cost_efficiency_score (rank_row ys i) = cost_efficiency_score (ys ! i)"
  "accessibility_score (rank_row ys i) = accessibility_score (ys ! i)"
  "strategic_value_score (rank_row ys i) = strategic_value_score (ys ! i)"
  "scored.truncate (rank_row ys i) = ys ! i"
  by (simp_all add: rank_row_def scored.defs ranked.defs)

lemma score_row_simps:
  "market_size_score (score_row t i) = market_size_column t ! i"
  "revenue_potential_score (score_row t i) = revenue_potential_column t ! i"
  "cost_efficiency_score (score_row t i) = cost_efficiency_column t ! i"
  "accessibility_score (score_row t i) = accessibility_column t ! i"
  "strategic_value_score (score_row t i) = anchor_score (t ! i)"
  "total_score (score_row t i) =
     weighted_total (market_size_column t ! i) (revenue_potential_column t ! i)
       (cost_efficiency_column t ! i) (accessibility_column t ! i) (anchor_score (t ! i))"
  "name (score_row t i) = name (t ! i)"
  "settlement.truncate (score_row t i) = t ! i"
  by (simp_all add: score_row_def Let_def settlement.defs scored.defs)


lemma length_score_table [simp]: "length (score_table t) = length t"
  by (simp add: score_table_def)


lemmas column_defs =
  market_size_column_def revenue_potential_column_def
  cost_efficiency_column_def accessibility_column_def times_scalar_def plus_series_def
  weighted_total_def anchor_score_def positive_flag_def normalize_score_def transformed_def
  fillna_def of_cell_def log1p_def series_min_def series_max_def fsub_def blank_def

lemma score_table_two_rows:
  "length t = 2 \<Longrightarrow> score_table t = [score_row t 0, score_row t 1]"
  by (simp add: score_table_def upt_rec numeral_2_eq_2)

lemma rank_and_tier_two_rows:
  "rank_and_tier [a, b] = [rank_row [a, b] 0, rank_row [a, b] 1]"
  by (simp add: rank_and_tier_def upt_rec numeral_2_eq_2)

lemma two_sites_total_scores:
  "total_score (score_row two_sites 0) = Num 33.75"
  "total_score (score_row two_sites (Suc 0)) = Num 51.25"
  by (simp_all add: two_sites_def score_row_simps column_defs)




lemma normalize_score_nth_range:
  assumes dom: "log_scale \<longrightarrow> (\<forall>x. Some x \<in> set series \<longrightarrow> -1 < x)"
    and i: "i < length series"
  shows "\<exists>y. normalize_score series reverse log_scale ! i = Num y \<and> 0 \<le> y \<and> y \<le> 100"
proof -
  define vs where "vs = map (cell_value log_scale) series"
  have tr: "transformed series log_scale = map Num vs"
    unfolding vs_def by (rule transformed_Num [OF dom])
  have len: "length vs = length series"
    by (simp add: vs_def)
  note ns = normalize_score_Num [OF tr, of reverse]
  let ?lo = "Min (set vs)" and ?hi = "Max (set vs)"
  show ?thesis
  proof (cases "vs = [] \<or> ?hi = ?lo")
    case True
    then show ?thesis using ns i len by simp
  next
    case False
    have mem: "vs ! i \<in> set vs" using i len by simp
    then have bounds: "?lo \<le> vs ! i" "vs ! i \<le> ?hi" by simp_all
    with False have lt: "?lo < ?hi" by linarith
    define q where "q = (vs ! i - ?lo) / (?hi - ?lo) * 100"
    have q0: "0 \<le> q" using bounds lt by (simp add: q_def)
    have q100: "q \<le> 100" using bounds lt by (simp add: q_def divide_le_eq)
    have "normalize_score series reverse log_scale ! i = Num (if reverse then 100 - q else q)"
      using ns False i len by (simp add: q_def)
    then show ?thesis using q0 q100 by auto
  qed
qed

lemma log_column_domain:
  assumes "\<forall>s\<in>set t. above_minus_one (f s)"
  shows "\<forall>x. Some x \<in> set (map f t) \<longrightarrow> -1 < x"
proof (intro allI impI)
  fix x
  assume "Some x \<in> set (map f t)"
  then obtain s where "s \<in> set t" "f s = Some x" by auto
  with assms show "-1 < x"
    by (force simp: above_minus_one_def)
qed

lemma weighted_total_Num:
  "weighted_total (Num m) (Num v) (Num c) (Num a) s =
     Num (0.25 * m + 0.25 * v + 0.20 * c + 0.15 * a + 0.15 * real_of_int s)"
  by (simp add: weighted_total_def algebra_simps)

lemma anchor_score_range: "0 \<le> anchor_score s \<and> anchor_score s \<le> 100"
  by (simp add: anchor_score_def positive_flag_def)

lemma mix2:
  assumes "x = Num a" "0 \<le> a" "a \<le> 100" "y = Num b" "0 \<le> b" "b \<le> 100"
    and "0 \<le> p" "0 \<le> q" "p + q = 1"
  shows "\<exists>z. fadd (fmul x (Num p)) (fmul y (Num q)) = Num z \<and> 0 \<le> z \<and> z \<le> 100"
proof -
  have "a * p + b * q \<le> 100 * p + 100 * q"
    using assms by (intro add_mono mult_right_mono) auto
  moreover have "0 \<le> a * p + b * q"
    using assms by simp
  ultimately show ?thesis
    using assms by (simp add: distrib_left [symmetric])
qed

lemma mix3:
  assumes "x = Num a" "0 \<le> a" "a \<le> 100" "y = Num b" "0 \<le> b" "b \<le> 100"
    and "z = Num c" "0 \<le> c" "c \<le> 100"
    and "0 \<le> p" "0 \<le> q" "0 \<le> r" "p + q + r = 1"
  shows "\<exists>u. fadd (fadd (fmul x (Num p)) (fmul y (Num q))) (fmul z (Num r)) = Num u \<and>
     0 \<le> u \<and> u \<le> 100"
proof -
  have "a * p \<le> 100 * p" "b * q \<le> 100 * q" "c * r \<le> 100 * r"
    using assms by (simp_all add: mult_right_mono)
  then have "a * p + b * q + c * r \<le> 100 * (p + q + r)"
    by (simp add: distrib_left)
  then have "a * p + b * q + c * r \<le> 100"
    using assms by simp
  moreover have "0 \<le> a * p + b * q + c * r"
    using assms by simp
  ultimately show ?thesis
    using assms(1,4,7) by simp
qed

lemma nth_times_scalar:
  "i < length s \<Longrightarrow> times_scalar s w ! i = fmul (s ! i) (Num w)"
  by (simp add: times_scalar_def)

lemma length_times_scalar [simp]: "length (times_scalar s w) = length s"
  by (simp add: times_scalar_def)

lemma nth_plus_series:
  "i < length a \<Longrightarrow> i < length b \<Longrightarrow> plus_series a b ! i = fadd (a ! i) (b ! i)"
  by (simp add: plus_series_def)

lemma length_plus_series [simp]: "length (plus_series a b) = min (length a) (length b)"
  by (simp add: plus_series_def)

lemmas nth_column = nth_plus_series nth_times_scalar normalize_score_length

lemma market_size_column_range:
  assumes dom: "\<forall>s\<in>set t. within_log_domain s" and i: "i < length t"
  shows "\<exists>m. market_size_column t ! i = Num m \<and> 0 \<le> m \<and> m \<le> 100"
proof -
  from dom have "\<forall>s\<in>set t. above_minus_one (pop s)" "\<forall>s\<in>set t. above_minus_one (pop_den s)"
    by (simp_all add: within_log_domain_def)
  then have d: "True \<longrightarrow> (\<forall>x. Some x \<in> set (map pop t) \<longrightarrow> -1 < x)"
    "True \<longrightarrow> (\<forall>x. Some x \<in> set (map pop_den t) \<longrightarrow> -1 < x)"
    using log_column_domain by blast+
  from i have j: "i < length (map pop t)" "i < length (map pop_den t)" by simp_all
  obtain a where a: "normalize_score (map pop t) False True ! i = Num a" "0 \<le> a" "a \<le> 100"
    using normalize_score_nth_range [OF d(1) j(1)] by blast
  obtain b where b: "normalize_score (map pop_den t) False True ! i = Num b" "0 \<le> b" "b \<le> 100"
    using normalize_score_nth_range [OF d(2) j(2)] by blast
  show ?thesis
    using mix2 [OF a b, of "0.7" "0.3"] i by (simp add: market_size_column_def nth_column)
qed

lemma revenue_potential_column_range:
  assumes dom: "\<forall>s\<in>set t. within_log_domain s" and i: "i < length t"
  shows "\<exists>m. revenue_potential_column t ! i = Num m \<and> 0 \<le> m \<and> m \<le> 100"
proof -
  from dom have "\<forall>s\<in>set t. above_minus_one (nightlight_intensity s)"
    by (simp add: within_log_domain_def)
  then have d: "True \<longrightarrow> (\<forall>x. Some x \<in> set (map nightlight_intensity t) \<longrightarrow> -1 < x)"
    "False \<longrightarrow> (\<forall>x. Some x \<in> set (map commercial_facilities_count t) \<longrightarrow> -1 < x)"
    using log_column_domain by blast+
  from i have j: "i < length (map nightlight_intensity t)"
    "i < length (map commercial_facilities_count t)" by simp_all
  obtain a where a: "normalize_score (map nightlight_intensity t) False True ! i = Num a"
    "0 \<le> a" "a \<le> 100"
    using normalize_score_nth_range [OF d(1) j(1)] by blast
  obtain b where b: "normalize_score (map commercial_facilities_count t) False False ! i = Num b"
    "0 \<le> b" "b \<le> 100"
    using normalize_score_nth_range [OF d(2) j(2)] by blast
  show ?thesis
    using mix2 [OF a b, of "0.6" "0.4"] i by (simp add: revenue_potential_column_def nth_column)
qed

lemma cost_efficiency_column_range:
  assumes i: "i < length t"
  shows "\<exists>m. cost_efficiency_column t ! i = Num m \<and> 0 \<le> m \<and> m \<le> 100"
proof -
  have d: "False \<longrightarrow> (\<forall>x. Some x \<in> set (map solar_ghi t) \<longrightarrow> -1 < x)"
    "False \<longrightarrow> (\<forall>x. Some x \<in> set (map distance_to_grid_km t) \<longrightarrow> -1 < x)"
    by simp_all
  from i have j: "i < length (map solar_ghi t)" "i < length (map distance_to_grid_km t)"
    by simp_all
  obtain a where a: "normalize_score (map solar_ghi t) False False ! i = Num a" "0 \<le> a" "a \<le> 100"
    using normalize_score_nth_range [OF d(1) j(1)] by blast
  obtain b where b: "normalize_score (map distance_to_grid_km t) False False ! i = Num b"
    "0 \<le> b" "b \<le> 100"
    using normalize_score_nth_range [OF d(2) j(2)] by blast
  show ?thesis
    using mix2 [OF a b, of "0.7" "0.3"] i by (simp add: cost_efficiency_column_def nth_column)
qed

lemma accessibility_column_range:
  assumes i: "i < length t"
  shows "\<exists>m. accessibility_column t ! i = Num m \<and> 0 \<le> m \<and> m \<le> 100"
proof -
  have d: "False \<longrightarrow> (\<forall>x. Some x \<in> set (map schools_count t) \<longrightarrow> -1 < x)"
    "False \<longrightarrow> (\<forall>x. Some x \<in> set (map health_facilities_count t) \<longrightarrow> -1 < x)"
    "False \<longrightarrow> (\<forall>x. Some x \<in> set (map commercial_facilities_count t) \<longrightarrow> -1 < x)"
    by simp_all
  from i have j: "i < length (map schools_count t)" "i < length (map health_facilities_count t)"
    "i < length (map commercial_facilities_count t)"
    by simp_all
  obtain a where a: "normalize_score (map schools_count t) False False ! i = Num a"
    "0 \<le> a" "a \<le> 100"
    using normalize_score_nth_range [OF d(1) j(1)] by blast
  obtain b where b: "normalize_score (map health_facilities_count t) False False ! i = Num b"
    "0 \<le> b" "b \<le> 100"
    using normalize_score_nth_range [OF d(2) j(2)] by blast
  obtain c where c: "normalize_score (map commercial_facilities_count t) False False ! i = Num c"
    "0 \<le> c" "c \<le> 100"
    using normalize_score_nth_range [OF d(3) j(3)] by blast
  show ?thesis
    using mix3 [OF a b c, of "0.4" "0.4" "0.2"] i
    by (simp add: accessibility_column_def nth_column)
qed

lemma weights_plain:
  fixes m v c a s :: real
  shows "0.25 * m + 0.25 * v + 0.20 * c + 0.15 * a + 0.15 * s
       = m / 4 + v / 4 + c / 5 + 3 * a / 20 + 3 * s / 20"
  by simp

lemma convex_between:
  fixes m v c a s :: real
  shows "Min {m, v, c, a, s} \<le> 0.25 * m + 0.25 * v + 0.20 * c + 0.15 * a + 0.15 * s"
    and "0.25 * m + 0.25 * v + 0.20 * c + 0.15 * a + 0.15 * s \<le> Max {m, v, c, a, s}"
proof -
  let ?lo = "Min {m, v, c, a, s}" and ?hi = "Max {m, v, c, a, s}"
  have "?lo \<le> m" "?lo \<le> v" "?lo \<le> c" "?lo \<le> a" "?lo \<le> s"
    by (rule Min_le; simp)+
  then show "?lo \<le> 0.25 * m + 0.25 * v + 0.20 * c + 0.15 * a + 0.15 * s"
    unfolding weights_plain by linarith
  have "m \<le> ?hi" "v \<le> ?hi" "c \<le> ?hi" "a \<le> ?hi" "s \<le> ?hi"
    by (rule Max_ge; simp)+
  then show "0.25 * m + 0.25 * v + 0.20 * c + 0.15 * a + 0.15 * s \<le> ?hi"
    unfolding weights_plain by linarith
qed

lemma weighted_bounds:
  fixes m v c a s :: real
  assumes "0 \<le> m" "m \<le> 100" "0 \<le> v" "v \<le> 100" "0 \<le> c" "c \<le> 100"
    "0 \<le> a" "a \<le> 100" "0 \<le> s" "s \<le> 100"
  shows "0 \<le> 0.25 * m + 0.25 * v + 0.20 * c + 0.15 * a + 0.15 * s"
    and "0.25 * m + 0.25 * v + 0.20 * c + 0.15 * a + 0.15 * s \<le> 100"
  using assms unfolding weights_plain by linarith+

lemma output_row:
  assumes "calculate_viability_scores t out" "r \<in> set out"
  obtains ys i k where "r = rank_row ys i" "ys ! i = score_row t k" "k < length t"
proof -
  from assms(1) obtain ys where sorted: "sort_values_desc (score_table t) ys"
    and out: "out = rank_and_tier ys"
    by (auto elim: calculate_viability_scores.cases)
  from assms(2) out obtain i where i: "i < length ys" "r = rank_row ys i"
    by (auto simp: in_set_conv_nth nth_rank_and_tier)
  from sorted have "set ys = set (score_table t)"
    by (metis sort_values_desc_def set_mset_mset)
  with i have "ys ! i \<in> set (score_table t)"
    using nth_mem by blast
  then obtain k where "k < length t" "ys ! i = score_row t k"
    by (auto simp: score_table_def)
  with i that show thesis by blast
qed

text \<open>
  Claim C5, as amended. For every record of the output, \<open>total_score\<close> is the weighted
  sum 0.25, 0.25, 0.20, 0.15, 0.15 of the five sub-scores, added in the order of the
  weight table. When the log-scaled metrics of every input record are missing or above
  -1, the sub-scores are numbers, and the total score lies between the least and the
  greatest of the five sub-scores and within [0,100].
\<close>

theorem total_score_convex:
  assumes out: "calculate_viability_scores t out" and r: "r \<in> set out"
  shows "total_score r =
       weighted_total (market_size_score r) (revenue_potential_score r)
         (cost_efficiency_score r) (accessibility_score r) (strategic_value_score r) \<and>
     ((\<forall>s\<in>set t. within_log_domain s) \<longrightarrow>
      (\<exists>m v c a sc.
         market_size_score r = Num m \<and> revenue_potential_score r = Num v \<and>
         cost_efficiency_score r = Num c \<and> accessibility_score r = Num a \<and>
         sc = 0.25 * m + 0.25 * v + 0.20 * c + 0.15 * a +
                 0.15 * real_of_int (strategic_value_score r) \<and>
         total_score r = Num sc \<and>
         Min {m, v, c, a, real_of_int (strategic_value_score r)} \<le> sc \<and>
         sc \<le> Max {m, v, c, a, real_of_int (strategic_value_score r)} \<and>
         0 \<le> sc \<and> sc \<le> 100))"
proof -
  from out r obtain ys i k where row: "r = rank_row ys i" "ys ! i = score_row t k"
    and k: "k < length t"
    by (rule output_row)
  have sum: "total_score r =
       weighted_total (market_size_score r) (revenue_potential_score r)
         (cost_efficiency_score r) (accessibility_score r) (strategic_value_score r)"
    by (simp add: row score_row_simps)
  have numbers: "\<exists>m v c a sc.
         market_size_score r = Num m \<and> revenue_potential_score r = Num v \<and>
         cost_efficiency_score r = Num c \<and> accessibility_score r = Num a \<and>
         sc = 0.25 * m + 0.25 * v + 0.20 * c + 0.15 * a +
                 0.15 * real_of_int (strategic_value_score r) \<and>
         total_score r = Num sc \<and>
         Min {m, v, c, a, real_of_int (strategic_value_score r)} \<le> sc \<and>
         sc \<le> Max {m, v, c, a, real_of_int (strategic_value_score r)} \<and>
         0 \<le> sc \<and> sc \<le> 100"
    if dom: "\<forall>s\<in>set t. within_log_domain s"
  proof -
    obtain m where m: "market_size_column t ! k = Num m" "0 \<le> m" "m \<le> 100"
      using market_size_column_range [OF dom k] by blast
    obtain v where v: "revenue_potential_column t ! k = Num v" "0 \<le> v" "v \<le> 100"
      using revenue_potential_column_range [OF dom k] by blast
    obtain c where c: "cost_efficiency_column t ! k = Num c" "0 \<le> c" "c \<le> 100"
      using cost_efficiency_column_range [OF k] by blast
    obtain a where a: "accessibility_column t ! k = Num a" "0 \<le> a" "a \<le> 100"
      using accessibility_column_range [OF k] by blast
    define s where "s = real_of_int (anchor_score (t ! k))"
    have s: "0 \<le> s" "s \<le> 100"
      using anchor_score_range [of "t ! k"] by (simp_all add: s_def)
    define sc where "sc = 0.25 * m + 0.25 * v + 0.20 * c + 0.15 * a + 0.15 * s"
    have sv: "real_of_int (strategic_value_score r) = s"
      by (simp add: row score_row_simps s_def)
    have fields: "market_size_score r = Num m" "revenue_potential_score r = Num v"
      "cost_efficiency_score r = Num c" "accessibility_score r = Num a"
      by (simp_all add: row score_row_simps m v c a)
    have tot: "total_score r = Num sc"
      by (simp add: row score_row_simps m v c a weighted_total_Num sc_def s_def)
    have lo: "Min {m, v, c, a, s} \<le> sc" and hi: "sc \<le> Max {m, v, c, a, s}"
      unfolding sc_def by (rule convex_between)+
    have range: "0 \<le> sc" "sc \<le> 100"
      unfolding sc_def using m(2,3) v(2,3) c(2,3) a(2,3) s by (rule weighted_bounds)+
    have "market_size_score r = Num m \<and> revenue_potential_score r = Num v \<and>
         cost_efficiency_score r = Num c \<and> accessibility_score r = Num a \<and>
         sc = 0.25 * m + 0.25 * v + 0.20 * c + 0.15 * a + 0.15 * s \<and>
         total_score r = Num sc \<and>
         Min {m, v, c, a, s} \<le> sc \<and> sc \<le> Max {m, v, c, a, s} \<and>
         0 \<le> sc \<and> sc \<le> 100"
      by (intro conjI fields tot lo hi range sc_def)
    then show ?thesis
      unfolding sv by (intro exI)
  qed
  show ?thesis
  proof (intro conjI impI)
    show "total_score r =
       weighted_total (market_size_score r) (revenue_potential_score r)
         (cost_efficiency_score r) (accessibility_score r) (strategic_value_score r)"
      by (rule sum)
  qed (rule numbers)
qed

lemma score_table_three_rows:
  "length t = 3 \<Longrightarrow> score_table t = [score_row t 0, score_row t 1, score_row t 2]"
  by (simp add: score_table_def upt_rec numeral_3_eq_3 numeral_2_eq_2)

lemma rank_and_tier_three_rows:
  "rank_and_tier [a, b, c] = [rank_row [a, b, c] 0, rank_row [a, b, c] 1, rank_row [a, b, c] 2]"
  by (simp add: rank_and_tier_def upt_rec numeral_3_eq_3 numeral_2_eq_2)

lemma negative_sites_scores:
  "market_size_score (score_row negative_sites 0) = NaN"
  "market_size_score (score_row negative_sites (Suc 0)) = Num 15"
  "market_size_score (score_row negative_sites (Suc (Suc 0))) = Num 85"
  "total_score (score_row negative_sites 0) = NaN"
  "total_score (score_row negative_sites (Suc 0)) = Num 33.75"
  "total_score (score_row negative_sites (Suc (Suc 0))) = Num 51.25"
  by (simp_all add: negative_sites_def score_row_simps column_defs)

lemma zero_sites_total_scores:
  "total_score (score_row zero_sites 0) = Num 0"
  "total_score (score_row zero_sites (Suc 0)) = Num 100"
  by (simp_all add: zero_sites_def busy_def score_row_simps column_defs)

text \<open>
  The theorem at the table \<open>two_sites\<close> and its first output row (site B): market size
  score 85, total score 51.25.
\<close>

theorem total_score_convex_witness:
  "calculate_viability_scores two_sites
     (rank_and_tier [score_row two_sites 1, score_row two_sites 0]) \<and>
   rank_row [score_row two_sites 1, score_row two_sites 0] 0
     \<in> set (rank_and_tier [score_row two_sites 1, score_row two_sites 0]) \<and>
   within_log_domain (two_sites ! 0) \<and> within_log_domain (two_sites ! 1) \<and>
   market_size_score (rank_row [score_row two_sites 1, score_row two_sites 0] 0) = Num 85 \<and>
   total_score (rank_row [score_row two_sites 1, score_row two_sites 0] 0) = Num 51.25 \<and>
   (\<exists>m v c a sc.
      market_size_score (rank_row [score_row two_sites 1, score_row two_sites 0] 0) = Num m \<and>
      revenue_potential_score (rank_row [score_row two_sites 1, score_row two_sites 0] 0) = Num v \<and>
      cost_efficiency_score (rank_row [score_row two_sites 1, score_row two_sites 0] 0) = Num c \<and>
      accessibility_score (rank_row [score_row two_sites 1, score_row two_sites 0] 0) = Num a \<and>
      sc = 0.25 * m + 0.25 * v + 0.20 * c + 0.15 * a +
           0.15 * real_of_int
             (strategic_value_score (rank_row [score_row two_sites 1, score_row two_sites 0] 0)) \<and>
      total_score (rank_row [score_row two_sites 1, score_row two_sites 0] 0) = Num sc \<and>
      Min {m, v, c, a, real_of_int
             (strategic_value_score (rank_row [score_row two_sites 1, score_row two_sites 0] 0))}
        \<le> sc \<and>
      sc \<le> Max {m, v, c, a, real_of_int
             (strategic_value_score (rank_row [score_row two_sites 1, score_row two_sites 0] 0))} \<and>
      0 \<le> sc \<and> sc \<le> 100)"
proof -
  let ?ys = "[score_row two_sites 1, score_row two_sites 0]"
  let ?r = "rank_row ?ys 0"
  have len: "length two_sites = 2"
    by (simp add: two_sites_def)
  have "sort_values_desc (score_table two_sites) ?ys"
    by (simp add: sort_values_desc_def score_table_two_rows [OF len] two_sites_total_scores)
  then have out: "calculate_viability_scores two_sites (rank_and_tier ?ys)"
    by (rule calculate_viability_scores.intros)
  have mem: "?r \<in> set (rank_and_tier ?ys)"
    by (simp add: rank_and_tier_two_rows)
  have dom0: "within_log_domain (two_sites ! 0)" and dom1: "within_log_domain (two_sites ! 1)"
    by (simp_all add: two_sites_def blank_def within_log_domain_def above_minus_one_def)
  then have dom: "\<forall>s\<in>set two_sites. within_log_domain s"
    by (simp add: two_sites_def)
  have ms: "market_size_score ?r = Num 85"
    by (simp add: two_sites_def score_row_simps column_defs)
  have ts: "total_score ?r = Num 51.25"
    by (simp add: two_sites_total_scores)
  from total_score_convex [OF out mem] dom out mem dom0 dom1 ms ts show ?thesis
    by blast
qed

text \<open>
  Claim C5 as stated fails where a log-scaled metric is below -1. In the table
  \<open>negative_sites\<close> site A has population -5: its market size score and its total score
  are NaN, so the total score is not a number within [0,100].
\<close>

theorem total_score_convex_counterexample:
  "calculate_viability_scores negative_sites
     (rank_and_tier
        [score_row negative_sites 2, score_row negative_sites 1, score_row negative_sites 0]) \<and>
   map name (rank_and_tier
        [score_row negative_sites 2, score_row negative_sites 1, score_row negative_sites 0])
     = [''C'', ''B'', ''A''] \<and>
   map market_size_score (rank_and_tier
        [score_row negative_sites 2, score_row negative_sites 1, score_row negative_sites 0])
     = [Num 85, Num 15, NaN] \<and>
   map total_score (rank_and_tier
        [score_row negative_sites 2, score_row negative_sites 1, score_row negative_sites 0])
     = [Num 51.25, Num 33.75, NaN]"
proof -
  let ?ys = "[score_row negative_sites 2, score_row negative_sites 1, score_row negative_sites 0]"
  have len: "length negative_sites = 3"
    by (simp add: negative_sites_def)
  have "sort_values_desc (score_table negative_sites) ?ys"
    by (simp add: sort_values_desc_def score_table_three_rows [OF len] negative_sites_scores
        may_precede_def numeral_2_eq_2)
  then have "calculate_viability_scores negative_sites (rank_and_tier ?ys)"
    by (rule calculate_viability_scores.intros)
  moreover have "map name (rank_and_tier ?ys) = [''C'', ''B'', ''A'']"
    by (simp add: rank_and_tier_three_rows score_row_simps negative_sites_def blank_def
        numeral_2_eq_2)
  moreover have "map market_size_score (rank_and_tier ?ys) = [Num 85, Num 15, NaN]"
    by (simp add: rank_and_tier_three_rows negative_sites_scores numeral_2_eq_2)
  moreover have "map total_score (rank_and_tier ?ys) = [Num 51.25, Num 33.75, NaN]"
    by (simp add: rank_and_tier_three_rows negative_sites_scores numeral_2_eq_2)
  ultimately show ?thesis by simp
qed

text \<open>The bins of the tier assignment: (0,40], (40,70] and (70,100].\<close>

lemma pd_cut_bins:
  "pd_cut (Num x) =
     (if 0 < x \<and> x \<le> 40 then Some Low
      else if 40 < x \<and> x \<le> 70 then Some Medium
      else if 70 < x \<and> x \<le> 100 then Some High
      else None)"
  by (simp add: pd_cut_def not_less)

lemma viability_tier_bins:
  assumes "calculate_viability_scores t out" "r \<in> set out" "total_score r = Num x"
  shows "viability_tier r =
     (if 0 < x \<and> x \<le> 40 then Some Low
      else if 40 < x \<and> x \<le> 70 then Some Medium
      else if 70 < x \<and> x \<le> 100 then Some High
      else None)"
proof -
  from assms(1,2) obtain ys i k where row: "r = rank_row ys i"
    by (rule output_row)
  with assms(3) show ?thesis
    by (simp add: pd_cut_bins)
qed

text \<open>
  Claim C3 at a record whose total score is exactly 0. In the table \<open>zero_sites\<close> site A
  has the least value in every column and no school or health facility, so its total
  score is 0; the first bin is open at 0 and the record gets no tier, where the claim
  says Low. A total score of exactly 40 gets Low.
\<close>

theorem viability_tier_zero_score:
  "calculate_viability_scores zero_sites
     (rank_and_tier [score_row zero_sites 1, score_row zero_sites 0]) \<and>
   map name (rank_and_tier [score_row zero_sites 1, score_row zero_sites 0]) = [''B'', ''A''] \<and>
   map total_score (rank_and_tier [score_row zero_sites 1, score_row zero_sites 0])
     = [Num 100, Num 0] \<and>
   map viability_tier (rank_and_tier [score_row zero_sites 1, score_row zero_sites 0])
     = [Some High, None] \<and>
   pd_cut (Num 0) = None \<and> pd_cut (Num 40) = Some Low"
proof -
  let ?ys = "[score_row zero_sites 1, score_row zero_sites 0]"
  have len: "length zero_sites = 2"
    by (simp add: zero_sites_def)
  have "sort_values_desc (score_table zero_sites) ?ys"
    by (simp add: sort_values_desc_def score_table_two_rows [OF len] zero_sites_total_scores)
  then have "calculate_viability_scores zero_sites (rank_and_tier ?ys)"
    by (rule calculate_viability_scores.intros)
  moreover have "map name (rank_and_tier ?ys) = [''B'', ''A'']"
    by (simp add: rank_and_tier_two_rows score_row_simps zero_sites_def blank_def busy_def)
  moreover have "map total_score (rank_and_tier ?ys) = [Num 100, Num 0]"
    by (simp add: rank_and_tier_two_rows zero_sites_total_scores)
  moreover have "map viability_tier (rank_and_tier ?ys) = [Some High, None]"
    by (simp add: rank_and_tier_two_rows zero_sites_total_scores pd_cut_bins)
  ultimately show ?thesis by (simp add: pd_cut_bins)
qed

section \<open>Properties of the financial projections\<close>

lemmas constants =
  CUSTOMER_PENETRATION_def AVG_HOUSEHOLD_SIZE_def DAILY_KWH_PER_CUSTOMER_def
  SYSTEM_OVERSIZING_def BASELINE_GHI_def CAPEX_PER_KW_def OPEX_PERCENT_def TARIFF_PER_KWH_def
  COLLECTION_RATE_def DISCOUNT_RATE_def PROJECT_LIFETIME_def

lemma project_row_fields:
  "estimated_customers (project_row s n) = n"
  "estimated_demand_kwh_day (project_row s n) = fmul (Num (real_of_int n)) (Num DAILY_KWH_PER_CUSTOMER)"
  "system_size_kw (project_row s n) =
     fmul (fdiv (estimated_demand_kwh_day (project_row s n)) (fmul (ghi_factor s) (Num 4)))
       (Num SYSTEM_OVERSIZING)"
  "capex_estimate_usd (project_row s n) =
     fmul (fmul (system_size_kw (project_row s n)) (Num CAPEX_PER_KW))
       (fadd (Num 1) (fmul (fdiv (of_cell (distance_to_grid_km s)) (Num 100)) (Num 0.1)))"
  "opex_annual_usd (project_row s n) = fmul (capex_estimate_usd (project_row s n)) (Num OPEX_PERCENT)"
  "revenue_annual_usd (project_row s n) =
     fmul (fmul (fmul (estimated_demand_kwh_day (project_row s n)) (Num 365)) (Num TARIFF_PER_KWH))
       (Num COLLECTION_RATE)"
  "annual_cashflow_usd (project_row s n) =
     fsub (revenue_annual_usd (project_row s n)) (opex_annual_usd (project_row s n))"
  "payback_years (project_row s n) =
     payback_of (capex_estimate_usd (project_row s n)) (annual_cashflow_usd (project_row s n))"
  "npv_10yr_usd (project_row s n) =
     fadd (fneg (capex_estimate_usd (project_row s n)))
       (fmul (annual_cashflow_usd (project_row s n)) (Num annuity_factor))"
  "simple_yield_percent (project_row s n) =
     simple_yield_of (annual_cashflow_usd (project_row s n)) (capex_estimate_usd (project_row s n))"
  "name (project_row s n) = name s"
  "settlement.truncate (project_row s n) = s"
  by (simp_all add: project_row_def Let_def settlement.defs projection.defs)

lemma round_columns_fields:
  "system_size_kw (round_columns r) = round1 (system_size_kw r)"
  "capex_estimate_usd (round_columns r) = round1 (capex_estimate_usd r)"
  "revenue_annual_usd (round_columns r) = round1 (revenue_annual_usd r)"
  "npv_10yr_usd (round_columns r) = round1 (npv_10yr_usd r)"
  "payback_years (round_columns r) = round1 (payback_years r)"
  "simple_yield_percent (round_columns r) = round1 (simple_yield_percent r)"
  "opex_annual_usd (round_columns r) = opex_annual_usd r"
  "annual_cashflow_usd (round_columns r) = annual_cashflow_usd r"
  "estimated_customers (round_columns r) = estimated_customers r"
  "estimated_demand_kwh_day (round_columns r) = estimated_demand_kwh_day r"
  "name (round_columns r) = name r"
  "settlement.truncate (round_columns r) = settlement.truncate r"
  by (simp_all add: round_columns_def settlement.defs)

lemma customers_of_Some:
  "pop s = Some p \<Longrightarrow>
   customers_of s = Inr (toward_zero (p / AVG_HOUSEHOLD_SIZE * CUSTOMER_PENETRATION))"
  by (simp add: customers_of_def astype_int_def of_cell_def AVG_HOUSEHOLD_SIZE_def)

lemma customers_of_None: "pop s = None \<Longrightarrow> customers_of s = Inl IntCastingNaNError"
  by (simp add: customers_of_def astype_int_def of_cell_def)

lemma project_table_rows:
  "project_table t = Inr rows \<Longrightarrow>
   length rows = length t \<and>
   (\<forall>i<length t. \<exists>n. customers_of (t ! i) = Inr n \<and> rows ! i = project_row (t ! i) n)"
proof (induction t arbitrary: rows)
  case Nil
  then show ?case by simp
next
  case (Cons s t)
  from Cons.prems obtain n rest where n: "customers_of s = Inr n"
    and rest: "project_table t = Inr rest" and rows: "rows = project_row s n # rest"
    by (auto split: sum.splits)
  from Cons.IH [OF rest] have len: "length rest = length t"
    and nth: "\<And>i. i < length t \<Longrightarrow>
        \<exists>m. customers_of (t ! i) = Inr m \<and> rest ! i = project_row (t ! i) m"
    by blast+
  show ?case
  proof (intro conjI allI impI)
    show "length rows = length (s # t)"
      by (simp add: rows len)
  next
    fix i
    assume "i < length (s # t)"
    then show "\<exists>m. customers_of ((s # t) ! i) = Inr m \<and> rows ! i = project_row ((s # t) ! i) m"
      using n nth by (cases i) (simp_all add: rows)
  qed
qed

lemma project_table_returns:
  "(\<forall>s\<in>set t. pop s \<noteq> None) \<Longrightarrow> \<exists>rows. project_table t = Inr rows"
proof (induction t)
  case Nil
  show ?case by simp
next
  case (Cons s t)
  then obtain p rows where "pop s = Some p" "project_table t = Inr rows"
    by auto
  then show ?case
    by (simp add: customers_of_Some)
qed

lemma project_table_raises:
  "\<exists>s\<in>set t. pop s = None \<Longrightarrow> project_table t = Inl IntCastingNaNError"
proof (induction t)
  case Nil
  then show ?case by simp
next
  case (Cons s t)
  show ?case
  proof (cases "pop s")
    case None
    then show ?thesis by (simp add: customers_of_None)
  next
    case (Some p)
    with Cons have "project_table t = Inl IntCastingNaNError" by auto
    then show ?thesis by (simp add: customers_of_Some [OF Some])
  qed
qed

lemma run_financial_projections_Inr:
  "run_financial_projections t = Inr out \<longleftrightarrow>
     (\<exists>rows. project_table t = Inr rows \<and> t \<noteq> [] \<and>
        settlements out = map round_columns rows \<and> viable_sites out = filter is_viable rows)"
proof (cases "project_table t")
  case (Inl e)
  then show ?thesis by (simp add: run_financial_projections_def)
next
  case (Inr rows)
  from project_table_rows [OF Inr] have "length rows = length t" by simp
  then have "rows = [] \<longleftrightarrow> t = []" by auto
  with Inr show ?thesis
    by (cases out) (auto simp: run_financial_projections_def rounding_step_def filter_step_def)
qed

lemma run_financial_projections_returns:
  "t \<noteq> [] \<Longrightarrow> \<forall>s\<in>set t. pop s \<noteq> None \<Longrightarrow> \<exists>out. run_financial_projections t = Inr out"
proof -
  assume t: "t \<noteq> []" and "\<forall>s\<in>set t. pop s \<noteq> None"
  then obtain rows where rows: "project_table t = Inr rows"
    using project_table_returns by blast
  let ?out = "\<lparr>settlements = map round_columns rows, viable_sites = filter is_viable rows\<rparr>"
  have "run_financial_projections t = Inr ?out"
    unfolding run_financial_projections_Inr using rows t by simp
  then show ?thesis ..
qed

lemmas row_eval =
  project_row_fields ghi_factor_def site_def blank_def of_cell_def constants fsub_def
  payback_of_def simple_yield_of_def replace_inf_def fillna_cell_def

lemma run_rows:
  assumes "run_financial_projections t = Inr out"
  shows "\<exists>rows. project_table t = Inr rows \<and> length rows = length t \<and>
    settlements out = map round_columns rows \<and> viable_sites out = filter is_viable rows \<and>
    (\<forall>i<length t. \<exists>n. customers_of (t ! i) = Inr n \<and> rows ! i = project_row (t ! i) n)"
proof -
  from assms obtain rows where rows: "project_table t = Inr rows"
    and out: "settlements out = map round_columns rows" "viable_sites out = filter is_viable rows"
    unfolding run_financial_projections_Inr by blast
  from project_table_rows [OF rows] rows out show ?thesis
    by blast
qed

lemma pipeline_table: "project_table pipeline_sites = Inr pipeline_rows"
  by (simp add: pipeline_sites_def pipeline_rows_def customers_of_def astype_int_def
      toward_zero_def site_def blank_def of_cell_def constants)

lemma pipeline_row_A:
  "capex_estimate_usd (pipeline_rows ! 0) = Num 43500"
  "annual_cashflow_usd (pipeline_rows ! 0) = Num 9429"
  "payback_years (pipeline_rows ! 0) = Num (43500 / 9429)"
  "estimated_customers (pipeline_rows ! 0) = 60"
  "estimated_demand_kwh_day (pipeline_rows ! 0) = Num 60"
  by (simp_all add: pipeline_rows_def pipeline_sites_def row_eval)

lemma pipeline_row_Z:
  "capex_estimate_usd (pipeline_rows ! 1) = Num 0"
  "annual_cashflow_usd (pipeline_rows ! 1) = Num 0"
  "payback_years (pipeline_rows ! 1) = Num 999"
  "npv_10yr_usd (pipeline_rows ! 1) = Num 0"
  "simple_yield_percent (pipeline_rows ! 1) = Num 0"
  by (simp_all add: pipeline_rows_def pipeline_sites_def row_eval)

lemma pipeline_viable:
  "is_viable (pipeline_rows ! 0)" "\<not> is_viable (pipeline_rows ! 1)"
  by (simp_all add: is_viable_def pipeline_rows_def pipeline_sites_def row_eval
      annuity_factor_def power_int_def power_divide)

lemma pipeline_run:
  "run_financial_projections pipeline_sites =
     Inr \<lparr>settlements = map round_columns pipeline_rows, viable_sites = [pipeline_rows ! 0]\<rparr>"
proof -
  have "filter is_viable pipeline_rows = [pipeline_rows ! 0]"
    using pipeline_viable by (simp add: pipeline_rows_def)
  then show ?thesis
    unfolding run_financial_projections_Inr using pipeline_table
    by (simp add: pipeline_sites_def)
qed

text \<open>
  Claim C9, as amended. For every record of a run that returns, the population is
  present and \<open>estimated_customers\<close> is \<open>(pop / AVG_HOUSEHOLD_SIZE) * CUSTOMER_PENETRATION\<close>
  with its fraction cut off towards zero, which is the floor of that product when the
  population is not negative; \<open>estimated_demand_kwh_day\<close> is the customer count times
  \<open>DAILY_KWH_PER_CUSTOMER\<close>.
\<close>

theorem estimated_customers_truncated:
  assumes "run_financial_projections t = Inr out" and "i < length t"
  shows "\<exists>p. pop (t ! i) = Some p \<and>
     estimated_customers (settlements out ! i) =
       toward_zero ((p / AVG_HOUSEHOLD_SIZE) * CUSTOMER_PENETRATION) \<and>
     (0 \<le> p \<longrightarrow> estimated_customers (settlements out ! i) =
       \<lfloor>(p / AVG_HOUSEHOLD_SIZE) * CUSTOMER_PENETRATION\<rfloor>) \<and>
     estimated_demand_kwh_day (settlements out ! i) =
       Num (real_of_int (estimated_customers (settlements out ! i)) * DAILY_KWH_PER_CUSTOMER)"
proof -
  from run_rows [OF assms(1)] obtain rows where len: "length rows = length t"
    and full: "settlements out = map round_columns rows"
    and nth: "\<And>i. i < length t \<Longrightarrow>
        \<exists>n. customers_of (t ! i) = Inr n \<and> rows ! i = project_row (t ! i) n"
    by blast
  from nth [OF assms(2)] obtain n where n: "customers_of (t ! i) = Inr n"
    and row: "rows ! i = project_row (t ! i) n"
    by blast
  have "pop (t ! i) \<noteq> None"
    using n customers_of_None [of "t ! i"] by auto
  then obtain p where p: "pop (t ! i) = Some p" by auto
  let ?x = "(p / AVG_HOUSEHOLD_SIZE) * CUSTOMER_PENETRATION"
  from n customers_of_Some [OF p] have nx: "n = toward_zero ?x" by simp
  have cust: "estimated_customers (settlements out ! i) = n"
    using assms(2) len by (simp add: full row round_columns_fields project_row_fields)
  have dem: "estimated_demand_kwh_day (settlements out ! i) =
      Num (real_of_int n * DAILY_KWH_PER_CUSTOMER)"
    using assms(2) len by (simp add: full row round_columns_fields project_row_fields)
  have "0 \<le> ?x" if "0 \<le> p"
    using that by (simp add: constants)
  then have "0 \<le> p \<longrightarrow> n = \<lfloor>?x\<rfloor>"
    by (simp add: nx toward_zero_def)
  with p nx cust dem show ?thesis by simp
qed

text \<open>
  The theorem at the first record of \<open>pipeline_sites\<close>, the scenario of the claim:
  population 1000, household size 5, penetration 0.30 and 1.0 kWh per customer give
  exactly 60 customers and 60 kWh per day.
\<close>

theorem estimated_customers_truncated_witness:
  "run_financial_projections pipeline_sites =
     Inr \<lparr>settlements = map round_columns pipeline_rows, viable_sites = [pipeline_rows ! 0]\<rparr> \<and>
   pop (pipeline_sites ! 0) = Some 1000 \<and>
   estimated_customers (map round_columns pipeline_rows ! 0) = 60 \<and>
   estimated_demand_kwh_day (map round_columns pipeline_rows ! 0) = Num 60"
proof -
  let ?out = "\<lparr>settlements = map round_columns pipeline_rows, viable_sites = [pipeline_rows ! 0]\<rparr>"
  have pop: "pop (pipeline_sites ! 0) = Some 1000"
    by (simp add: pipeline_sites_def site_def blank_def)
  have i: "0 < length pipeline_sites"
    by (simp add: pipeline_sites_def)
  from estimated_customers_truncated [OF pipeline_run i] pop
  have c: "estimated_customers (settlements ?out ! 0) =
        \<lfloor>(1000 / AVG_HOUSEHOLD_SIZE) * CUSTOMER_PENETRATION\<rfloor>"
    and d: "estimated_demand_kwh_day (settlements ?out ! 0) =
        Num (real_of_int (estimated_customers (settlements ?out ! 0)) * DAILY_KWH_PER_CUSTOMER)"
    by auto
  from c have c60: "estimated_customers (settlements ?out ! 0) = 60"
    by (simp add: constants)
  with d have "estimated_demand_kwh_day (settlements ?out ! 0) = Num 60"
    by (simp add: constants)
  with c60 pop pipeline_run show ?thesis by simp
qed

text \<open>
  Claim C9 as stated says floor for every record. A record with population -1 gets 0
  customers, where the floor of -0.06 is -1.
\<close>

theorem estimated_customers_floor_counterexample:
  "run_financial_projections negative_pop =
     Inr \<lparr>settlements = [round_columns (project_row (negative_pop ! 0) 0)], viable_sites = []\<rparr> \<and>
   pop (negative_pop ! 0) = Some (- 1) \<and>
   estimated_customers (round_columns (project_row (negative_pop ! 0) 0)) = 0 \<and>
   \<lfloor>((- 1) / AVG_HOUSEHOLD_SIZE) * CUSTOMER_PENETRATION\<rfloor> = (- 1 :: int)"
proof -
  have tab: "project_table negative_pop = Inr [project_row (negative_pop ! 0) 0]"
    by (simp add: negative_pop_def customers_of_def astype_int_def toward_zero_def site_def
        blank_def of_cell_def constants)
  have "\<not> is_viable (project_row (negative_pop ! 0) 0)"
    by (simp add: is_viable_def negative_pop_def row_eval)
  then have "run_financial_projections negative_pop =
     Inr \<lparr>settlements = [round_columns (project_row (negative_pop ! 0) 0)], viable_sites = []\<rparr>"
    unfolding run_financial_projections_Inr using tab by (simp add: negative_pop_def)
  moreover have "pop (negative_pop ! 0) = Some (- 1)"
    by (simp add: negative_pop_def site_def blank_def)
  moreover have "\<lfloor>((- 1) / AVG_HOUSEHOLD_SIZE) * CUSTOMER_PENETRATION\<rfloor> = (- 1 :: int)"
    by (simp add: constants)
  ultimately show ?thesis
    by (simp add: round_columns_fields project_row_fields)
qed

text \<open>
  Claim C4, as amended. For every record as computed (and so for every record of the
  viable subset, which keeps the computed values), \<open>payback_years\<close> is 999 whenever the
  annual cash flow is not greater than 0, and is otherwise exactly capex divided by the
  annual cash flow; the division is used only for a positive cash flow, and the value is
  not negative when capex is not negative. In the full record set the column is then
  rounded to one decimal place, which leaves 999 as it is; \<open>annual_cashflow_usd\<close> is not
  rounded.
\<close>

theorem payback_sentinel:
  assumes "run_financial_projections t = Inr out"
  shows "\<exists>rows. project_table t = Inr rows \<and> length rows = length t \<and>
     settlements out = map round_columns rows \<and> set (viable_sites out) \<subseteq> set rows \<and>
     (\<forall>r\<in>set rows.
        (\<not> fless (Num 0) (annual_cashflow_usd r) \<longrightarrow>
           payback_years r = Num 999 \<and> payback_years (round_columns r) = Num 999) \<and>
        (\<forall>c. annual_cashflow_usd r = Num c \<and> c \<le> 0 \<longrightarrow>
           payback_years r = Num 999 \<and> payback_years (round_columns r) = Num 999) \<and>
        (\<forall>c k. annual_cashflow_usd r = Num c \<and> 0 < c \<and> capex_estimate_usd r = Num k \<longrightarrow>
           payback_years r = Num (k / c)) \<and>
        (fless (Num 0) (annual_cashflow_usd r) \<longrightarrow>
           payback_years r = fdiv (capex_estimate_usd r) (annual_cashflow_usd r)) \<and>
        (\<forall>k. capex_estimate_usd r = Num k \<and> 0 \<le> k \<longrightarrow>
           (\<exists>y. payback_years r = Num y \<and> 0 \<le> y)) \<and>
        payback_years (round_columns r) = round1 (payback_years r) \<and>
        annual_cashflow_usd (round_columns r) = annual_cashflow_usd r)"
    (is "\<exists>rows. _ \<and> _ \<and> _ \<and> _ \<and> (\<forall>r\<in>set rows. ?P r)")
proof -
  from run_rows [OF assms] obtain rows where rows: "project_table t = Inr rows"
    "length rows = length t"
    "settlements out = map round_columns rows" "viable_sites out = filter is_viable rows"
    and nth: "\<And>i. i < length t \<Longrightarrow>
        \<exists>n. customers_of (t ! i) = Inr n \<and> rows ! i = project_row (t ! i) n"
    by blast
  have sentinel: "round1 (Num 999) = Num 999"
    by (simp add: round1_def rint_def)
  have each: "?P r" if "r \<in> set rows" for r
  proof -
    from that obtain i where "i < length t" "r = rows ! i"
      using rows(2) by (auto simp: in_set_conv_nth)
    with nth obtain n where r: "r = project_row (t ! i) n"
      by blast
    have pb: "payback_years r = payback_of (capex_estimate_usd r) (annual_cashflow_usd r)"
      by (simp add: r project_row_fields(8))
    have rounded: "payback_years (round_columns r) = round1 (payback_years r)"
      "annual_cashflow_usd (round_columns r) = annual_cashflow_usd r"
      by (simp_all add: round_columns_fields)
    have neg: "payback_years r = Num 999 \<and> payback_years (round_columns r) = Num 999"
      if "\<not> fless (Num 0) (annual_cashflow_usd r)"
      using that by (simp add: rounded pb payback_of_def sentinel)
    have pos: "payback_years r = fdiv (capex_estimate_usd r) (annual_cashflow_usd r)"
      if "fless (Num 0) (annual_cashflow_usd r)"
      using that by (simp add: pb payback_of_def)
    have neg_num: "payback_years r = Num 999 \<and> payback_years (round_columns r) = Num 999"
      if "annual_cashflow_usd r = Num c \<and> c \<le> 0" for c
      using that neg by simp
    have pos_num: "payback_years r = Num (k / c)"
      if "annual_cashflow_usd r = Num c \<and> 0 < c \<and> capex_estimate_usd r = Num k" for c k
      using that pos by simp
    have nonneg: "\<exists>y. payback_years r = Num y \<and> 0 \<le> y"
      if "capex_estimate_usd r = Num k \<and> 0 \<le> k" for k
    proof -
      from that have k: "capex_estimate_usd (project_row (t ! i) n) = Num k" "0 \<le> k"
        by (simp_all add: r)
      obtain c where c: "annual_cashflow_usd r = Num c"
        by (simp add: r project_row_fields(2,5,6,7) k fsub_def)
      show ?thesis
        using k(2) by (simp add: pb c payback_of_def k(1) [folded r])
    qed
    from neg pos neg_num pos_num nonneg rounded show ?thesis
      by blast
  qed
  have sub: "set (viable_sites out) \<subseteq> set rows"
    by (simp add: rows)
  have "\<forall>r\<in>set rows. ?P r"
    by (intro ballI) (rule each)
  with rows sub show ?thesis
    by blast
qed

lemma pipeline_rows_unique: "project_table pipeline_sites = Inr rows \<Longrightarrow> rows = pipeline_rows"
  using pipeline_table by simp

lemma pipeline_members:
  "pipeline_rows ! 0 \<in> set pipeline_rows" "pipeline_rows ! 1 \<in> set pipeline_rows"
  by (simp_all add: pipeline_rows_def)

text \<open>
  The theorem at \<open>pipeline_sites\<close>: site Z has population 0, cash flow 0 and payback 999,
  before and after the rounding; site A has cash flow 9429, capex 43500 and payback
  43500 / 9429.
\<close>

theorem payback_sentinel_witness:
  "run_financial_projections pipeline_sites =
     Inr \<lparr>settlements = map round_columns pipeline_rows, viable_sites = [pipeline_rows ! 0]\<rparr> \<and>
   annual_cashflow_usd (pipeline_rows ! 1) = Num 0 \<and>
   payback_years (pipeline_rows ! 1) = Num 999 \<and>
   payback_years (round_columns (pipeline_rows ! 1)) = Num 999 \<and>
   annual_cashflow_usd (pipeline_rows ! 0) = Num 9429 \<and>
   capex_estimate_usd (pipeline_rows ! 0) = Num 43500 \<and>
   payback_years (pipeline_rows ! 0) = Num (43500 / 9429)"
proof -
  from payback_sentinel [OF pipeline_run] obtain rows
    where rows: "project_table pipeline_sites = Inr rows"
      and each: "\<And>r. r \<in> set rows \<Longrightarrow>
        (\<forall>c. annual_cashflow_usd r = Num c \<and> c \<le> 0 \<longrightarrow>
           payback_years r = Num 999 \<and> payback_years (round_columns r) = Num 999) \<and>
        (\<forall>c k. annual_cashflow_usd r = Num c \<and> 0 < c \<and> capex_estimate_usd r = Num k \<longrightarrow>
           payback_years r = Num (k / c))"
    by blast
  from rows have eq: "rows = pipeline_rows"
    by (rule pipeline_rows_unique)
  have z: "annual_cashflow_usd (pipeline_rows ! 1) = Num 0"
    and a: "annual_cashflow_usd (pipeline_rows ! 0) = Num 9429"
      "capex_estimate_usd (pipeline_rows ! 0) = Num 43500"
    by (rule pipeline_row_Z pipeline_row_A)+
  from each [of "pipeline_rows ! 1"] z
  have "payback_years (pipeline_rows ! 1) = Num 999 \<and>
      payback_years (round_columns (pipeline_rows ! 1)) = Num 999"
    using pipeline_members by (simp add: eq)
  moreover from each [of "pipeline_rows ! 0"] a
  have "payback_years (pipeline_rows ! 0) = Num (43500 / 9429)"
    using pipeline_members by (simp add: eq)
  ultimately show ?thesis
    using z a pipeline_run by simp
qed

lemma small_site_row:
  "capex_estimate_usd (project_row (small_site ! 0) 1) = Num 1087.5"
  "annual_cashflow_usd (project_row (small_site ! 0) 1) = Num 142.65"
  "payback_years (project_row (small_site ! 0) 1) = Num (1087.5 / 142.65)"
  by (simp_all add: small_site_def row_eval)

lemma small_site_run:
  "run_financial_projections small_site =
     Inr \<lparr>settlements = [round_columns (project_row (small_site ! 0) 1)], viable_sites = []\<rparr>"
proof -
  have tab: "project_table small_site = Inr [project_row (small_site ! 0) 1]"
    by (simp add: small_site_def customers_of_def astype_int_def toward_zero_def site_def
        blank_def of_cell_def constants)
  have "\<not> is_viable (project_row (small_site ! 0) 1)"
    by (simp add: is_viable_def small_site_row)
  then show ?thesis
    unfolding run_financial_projections_Inr using tab by (simp add: small_site_def)
qed

text \<open>
  Claim C4 as stated says that for every record \<open>payback_years\<close> equals capex over cash
  flow exactly. In the full record set of \<open>small_site\<close> the record has cash flow 142.65,
  capex 1087.5 and payback 7.6, which is not 1087.5 / 142.65.
\<close>

theorem payback_exact_counterexample:
  "run_financial_projections small_site =
     Inr \<lparr>settlements = [round_columns (project_row (small_site ! 0) 1)], viable_sites = []\<rparr> \<and>
   annual_cashflow_usd (round_columns (project_row (small_site ! 0) 1)) = Num 142.65 \<and>
   capex_estimate_usd (round_columns (project_row (small_site ! 0) 1)) = Num 1087.5 \<and>
   payback_years (round_columns (project_row (small_site ! 0) 1)) = Num 7.6 \<and>
   fdiv (Num 1087.5) (Num 142.65) \<noteq> Num 7.6"
proof -
  have "capex_estimate_usd (round_columns (project_row (small_site ! 0) 1)) = Num 1087.5"
    by (simp add: round_columns_fields small_site_row round1_def rint_def Let_def)
  moreover have "payback_years (round_columns (project_row (small_site ! 0) 1)) = Num 7.6"
    by (simp add: round_columns_fields small_site_row round1_def rint_def Let_def)
  moreover have "annual_cashflow_usd (round_columns (project_row (small_site ! 0) 1)) = Num 142.65"
    by (simp add: round_columns_fields small_site_row)
  moreover have "fdiv (Num 1087.5) (Num 142.65) \<noteq> Num 7.6"
    by simp
  ultimately show ?thesis
    using small_site_run by simp
qed

lemma project_table_truncate:
  "project_table t = Inr rows \<Longrightarrow> map settlement.truncate rows = t"
proof (induction t arbitrary: rows)
  case Nil
  then show ?case by simp
next
  case (Cons s t)
  then show ?case
    by (auto split: sum.splits simp: project_row_fields)
qed

text \<open>
  Claim C6. When the run returns, the viable subset is exactly the computed records with
  \<open>npv_10yr_usd > 0\<close> and \<open>payback_years < 7\<close>, in their order. It is a separate table: the
  filter step leaves the full table as it was, and the full table is returned beside the
  subset with every input record, in the input order (its columns rounded by the step
  that follows the filter).
\<close>

theorem bankability_filter:
  assumes "run_financial_projections t = Inr out"
  shows "\<exists>rows. project_table t = Inr rows \<and>
     viable_sites out =
       filter (\<lambda>r. fless (Num 0) (npv_10yr_usd r) \<and> fless (payback_years r) (Num 7)) rows \<and>
     (\<forall>r. r \<in> set (viable_sites out) \<longleftrightarrow>
          r \<in> set rows \<and> fless (Num 0) (npv_10yr_usd r) \<and> fless (payback_years r) (Num 7)) \<and>
     (\<forall>r\<in>set rows. \<forall>x y. npv_10yr_usd r = Num x \<and> payback_years r = Num y \<longrightarrow>
          (r \<in> set (viable_sites out) \<longleftrightarrow> 0 < x \<and> y < 7)) \<and>
     out = rounding_step (filter_step rows) \<and>
     settlements (filter_step rows) = rows \<and>
     viable_sites (filter_step rows) = viable_sites out \<and>
     settlements out = map round_columns rows \<and>
     length (settlements out) = length t \<and>
     map settlement.truncate (settlements out) = t"
proof -
  from run_rows [OF assms] obtain rows where rows: "project_table t = Inr rows"
    "length rows = length t"
    "settlements out = map round_columns rows" "viable_sites out = filter is_viable rows"
    by blast
  have sel: "viable_sites out =
       filter (\<lambda>r. fless (Num 0) (npv_10yr_usd r) \<and> fless (payback_years r) (Num 7)) rows"
    by (simp add: rows is_viable_def [abs_def])
  then have mem: "\<forall>r. r \<in> set (viable_sites out) \<longleftrightarrow>
          r \<in> set rows \<and> fless (Num 0) (npv_10yr_usd r) \<and> fless (payback_years r) (Num 7)"
    by simp
  then have num: "\<forall>r\<in>set rows. \<forall>x y. npv_10yr_usd r = Num x \<and> payback_years r = Num y \<longrightarrow>
          (r \<in> set (viable_sites out) \<longleftrightarrow> 0 < x \<and> y < 7)"
    by simp
  have all: "map settlement.truncate (settlements out) = t"
    using project_table_truncate [OF rows(1)]
    by (simp add: rows(3) round_columns_fields comp_def)
  have len: "length (settlements out) = length t"
    by (simp add: rows)
  have steps: "out = rounding_step (filter_step rows)" "settlements (filter_step rows) = rows"
    "viable_sites (filter_step rows) = viable_sites out"
    using rows(3,4) by (cases out; simp add: rounding_step_def filter_step_def)+
  from rows sel mem num all len steps show ?thesis
    by blast
qed

lemma pipeline_npv: "npv_10yr_usd (pipeline_rows ! 0) = Num (9429 * annuity_factor - 43500)"
  by (simp add: pipeline_rows_def pipeline_sites_def row_eval)

lemma annuity_bounds: "5.65 < annuity_factor" "annuity_factor < 5.66"
  by (simp_all add: annuity_factor_def constants power_int_def power_divide)

text \<open>
  The theorem at \<open>pipeline_sites\<close>: site A, with positive NPV and a payback of about 4.6
  years, is selected; site Z, with NPV 0 and payback 999, is not; the full table holds
  both.
\<close>

theorem bankability_filter_witness:
  "run_financial_projections pipeline_sites =
     Inr \<lparr>settlements = map round_columns pipeline_rows, viable_sites = [pipeline_rows ! 0]\<rparr> \<and>
   npv_10yr_usd (pipeline_rows ! 0) = Num (9429 * annuity_factor - 43500) \<and>
   0 < 9429 * annuity_factor - 43500 \<and>
   payback_years (pipeline_rows ! 0) = Num (43500 / 9429) \<and> (43500 / 9429 :: real) < 7 \<and>
   pipeline_rows ! 0 \<in> set [pipeline_rows ! 0] \<and>
   npv_10yr_usd (pipeline_rows ! 1) = Num 0 \<and> payback_years (pipeline_rows ! 1) = Num 999 \<and>
   pipeline_rows ! 1 \<notin> set [pipeline_rows ! 0] \<and>
   map name (map round_columns pipeline_rows) = [''A'', ''Z'']"
proof -
  let ?out = "\<lparr>settlements = map round_columns pipeline_rows, viable_sites = [pipeline_rows ! 0]\<rparr>"
  from bankability_filter [OF pipeline_run] obtain rows
    where rows: "project_table pipeline_sites = Inr rows"
      and num: "\<forall>r\<in>set rows. \<forall>x y. npv_10yr_usd r = Num x \<and> payback_years r = Num y \<longrightarrow>
          (r \<in> set (viable_sites ?out) \<longleftrightarrow> 0 < x \<and> y < 7)"
    by blast
  from rows have eq: "rows = pipeline_rows"
    by (rule pipeline_rows_unique)
  have z: "npv_10yr_usd (pipeline_rows ! 1) = Num 0" "payback_years (pipeline_rows ! 1) = Num 999"
    by (rule pipeline_row_Z)+
  have a: "npv_10yr_usd (pipeline_rows ! 0) = Num (9429 * annuity_factor - 43500)"
    "payback_years (pipeline_rows ! 0) = Num (43500 / 9429)"
    by (rule pipeline_npv pipeline_row_A)+
  have pos: "0 < 9429 * annuity_factor - 43500" "(43500 / 9429 :: real) < 7"
    using annuity_bounds by simp_all
  from num eq z pipeline_members(2) have "pipeline_rows ! 1 \<notin> set (viable_sites ?out)"
    by fastforce
  moreover from num eq a pos pipeline_members(1) have "pipeline_rows ! 0 \<in> set (viable_sites ?out)"
    by fastforce
  moreover have "map name (map round_columns pipeline_rows) = [''A'', ''Z'']"
    by (simp add: pipeline_rows_def pipeline_sites_def round_columns_fields project_row_fields
        site_def blank_def)
  ultimately show ?thesis
    using z a pos pipeline_run by simp
qed

lemma rint_near: "\<bar>of_int (rint x) - x\<bar> \<le> 1 / 2"
  unfolding rint_def Let_def by (auto; linarith)

lemma round1_one_decimal:
  "\<exists>k. round1 (Num x) = Num (of_int k / 10) \<and> \<bar>of_int k / 10 - x\<bar> \<le> 1 / 20"
proof -
  have "\<bar>of_int (rint (x * 10)) - x * 10\<bar> \<le> 1 / 2"
    by (rule rint_near)
  then have "\<bar>of_int (rint (x * 10)) / 10 - x\<bar> \<le> 1 / 20"
    by (simp add: abs_le_iff field_simps)
  then show ?thesis
    by (auto simp: round1_def)
qed

text \<open>
  Claim C7, as amended. In the full record set the six columns \<open>system_size_kw\<close>,
  \<open>capex_estimate_usd\<close>, \<open>revenue_annual_usd\<close>, \<open>npv_10yr_usd\<close>, \<open>payback_years\<close> and
  \<open>simple_yield_percent\<close> hold the computed values rounded to one decimal place (a
  multiple of 1/10 at most 1/20 away), while \<open>opex_annual_usd\<close>, \<open>annual_cashflow_usd\<close>,
  \<open>estimated_customers\<close> and \<open>estimated_demand_kwh_day\<close> hold the computed values as they
  are. The viable subset is made of computed records, with no column rounded.
\<close>

theorem rounded_columns:
  assumes "run_financial_projections t = Inr out"
  shows "\<exists>rows. project_table t = Inr rows \<and> settlements out = map round_columns rows \<and>
     viable_sites out = filter is_viable rows \<and>
     (\<forall>r\<in>set rows.
        system_size_kw (round_columns r) = round1 (system_size_kw r) \<and>
        capex_estimate_usd (round_columns r) = round1 (capex_estimate_usd r) \<and>
        revenue_annual_usd (round_columns r) = round1 (revenue_annual_usd r) \<and>
        npv_10yr_usd (round_columns r) = round1 (npv_10yr_usd r) \<and>
        payback_years (round_columns r) = round1 (payback_years r) \<and>
        simple_yield_percent (round_columns r) = round1 (simple_yield_percent r) \<and>
        opex_annual_usd (round_columns r) = opex_annual_usd r \<and>
        annual_cashflow_usd (round_columns r) = annual_cashflow_usd r \<and>
        estimated_customers (round_columns r) = estimated_customers r \<and>
        estimated_demand_kwh_day (round_columns r) = estimated_demand_kwh_day r) \<and>
     (\<forall>x. \<exists>k. round1 (Num x) = Num (of_int k / 10) \<and> \<bar>of_int k / 10 - x\<bar> \<le> 1 / 20)"
proof -
  from run_rows [OF assms] obtain rows where "project_table t = Inr rows"
    "settlements out = map round_columns rows" "viable_sites out = filter is_viable rows"
    by blast
  then show ?thesis
    using round1_one_decimal by (intro exI [of _ rows]) (simp add: round_columns_fields)
qed

lemma pipeline_row_A_rounded:
  "system_size_kw (pipeline_rows ! 0) = Num 14.5"
  "revenue_annual_usd (pipeline_rows ! 0) = Num 11169"
  "opex_annual_usd (pipeline_rows ! 0) = Num 1740"
  "simple_yield_percent (pipeline_rows ! 0) = Num (942900 / 43500)"
  by (simp_all add: pipeline_rows_def pipeline_sites_def row_eval)

text \<open>
  The theorem at site A of \<open>pipeline_sites\<close>: payback 43500 / 9429 is reported as 4.6, the
  yield as 21.7, capex 43500 and opex 1740 as they are.
\<close>

theorem rounded_columns_witness:
  "run_financial_projections pipeline_sites =
     Inr \<lparr>settlements = map round_columns pipeline_rows, viable_sites = [pipeline_rows ! 0]\<rparr> \<and>
   payback_years (pipeline_rows ! 0) = Num (43500 / 9429) \<and>
   payback_years (round_columns (pipeline_rows ! 0)) = Num 4.6 \<and>
   simple_yield_percent (round_columns (pipeline_rows ! 0)) = Num 21.7 \<and>
   capex_estimate_usd (round_columns (pipeline_rows ! 0)) = Num 43500 \<and>
   opex_annual_usd (round_columns (pipeline_rows ! 0)) = Num 1740"
proof -
  from rounded_columns [OF pipeline_run] obtain rows
    where rows: "project_table pipeline_sites = Inr rows"
      and each: "\<forall>r\<in>set rows.
        capex_estimate_usd (round_columns r) = round1 (capex_estimate_usd r) \<and>
        payback_years (round_columns r) = round1 (payback_years r) \<and>
        simple_yield_percent (round_columns r) = round1 (simple_yield_percent r) \<and>
        opex_annual_usd (round_columns r) = opex_annual_usd r"
    by blast
  from rows have eq: "rows = pipeline_rows"
    by (rule pipeline_rows_unique)
  with each pipeline_members(1)
  have r: "capex_estimate_usd (round_columns (pipeline_rows ! 0)) =
        round1 (capex_estimate_usd (pipeline_rows ! 0))"
    "payback_years (round_columns (pipeline_rows ! 0)) = round1 (payback_years (pipeline_rows ! 0))"
    "simple_yield_percent (round_columns (pipeline_rows ! 0)) =
        round1 (simple_yield_percent (pipeline_rows ! 0))"
    "opex_annual_usd (round_columns (pipeline_rows ! 0)) = opex_annual_usd (pipeline_rows ! 0)"
    by blast+
  have v: "capex_estimate_usd (pipeline_rows ! 0) = Num 43500"
    "payback_years (pipeline_rows ! 0) = Num (43500 / 9429)"
    "simple_yield_percent (pipeline_rows ! 0) = Num (942900 / 43500)"
    "opex_annual_usd (pipeline_rows ! 0) = Num 1740"
    by (rule pipeline_row_A pipeline_row_A_rounded)+
  have "round1 (Num 43500) = Num 43500" "round1 (Num (43500 / 9429)) = Num 4.6"
    "round1 (Num (942900 / 43500)) = Num 21.7"
    by (simp_all add: round1_def rint_def Let_def)
  with r v pipeline_run show ?thesis
    by simp
qed

lemma remote_site_row:
  "opex_annual_usd (project_row (remote_site ! 0) 1) = Num 43.5435"
  "annual_cashflow_usd (project_row (remote_site ! 0) 1) = Num 142.6065"
  "npv_10yr_usd (project_row (remote_site ! 0) 1) = Num (142.6065 * annuity_factor - 1088.5875)"
  "payback_years (project_row (remote_site ! 0) 1) = Num (1088.5875 / 142.6065)"
  by (simp_all add: remote_site_def row_eval)

lemma remote_site_run:
  "run_financial_projections remote_site =
     Inr \<lparr>settlements = [round_columns (project_row (remote_site ! 0) 1)], viable_sites = []\<rparr>"
proof -
  have tab: "project_table remote_site = Inr [project_row (remote_site ! 0) 1]"
    by (simp add: remote_site_def customers_of_def astype_int_def toward_zero_def site_def
        blank_def of_cell_def constants)
  have "\<not> is_viable (project_row (remote_site ! 0) 1)"
    by (simp add: is_viable_def remote_site_row)
  then show ?thesis
    unfolding run_financial_projections_Inr using tab by (simp add: remote_site_def)
qed

text \<open>
  Claim C7 as stated lists \<open>opex_annual_usd\<close> and \<open>annual_cashflow_usd\<close> among the rounded
  fields. In the full record set of \<open>remote_site\<close> they are 43.5435 and 142.6065, where
  one decimal place would give 43.5 and 142.6.
\<close>

theorem rounded_columns_counterexample:
  "run_financial_projections remote_site =
     Inr \<lparr>settlements = [round_columns (project_row (remote_site ! 0) 1)], viable_sites = []\<rparr> \<and>
   opex_annual_usd (round_columns (project_row (remote_site ! 0) 1)) = Num 43.5435 \<and>
   annual_cashflow_usd (round_columns (project_row (remote_site ! 0) 1)) = Num 142.6065 \<and>
   round1 (Num 43.5435) = Num 43.5 \<and> round1 (Num 142.6065) = Num 142.6"
proof -
  have "round1 (Num 43.5435) = Num 43.5" "round1 (Num 142.6065) = Num 142.6"
    by (simp_all add: round1_def rint_def Let_def)
  then show ?thesis
    using remote_site_run by (simp add: round_columns_fields remote_site_row)
qed

lemma simple_yield_of_number: "\<exists>y. simple_yield_of cashflow capex = Num y"
proof (cases "fmul (fdiv cashflow capex) (Num 100)")
  case (Num y)
  then show ?thesis by (simp add: simple_yield_of_def replace_inf_def fillna_cell_def)
next
  case PosInf
  then show ?thesis by (simp add: simple_yield_of_def replace_inf_def fillna_cell_def)
next
  case NegInf
  then show ?thesis by (simp add: simple_yield_of_def replace_inf_def fillna_cell_def)
next
  case NaN
  then show ?thesis by (simp add: simple_yield_of_def replace_inf_def fillna_cell_def)
qed

lemma simple_yield_of_zero_capex: "simple_yield_of cashflow (Num 0) = Num 0"
  by (cases cashflow)
     (simp_all add: simple_yield_of_def replace_inf_def fillna_cell_def inf_times_def)

lemma round1_number: "round1 (Num y) = Num (of_int (rint (y * 10)) / 10)"
  by (simp add: round1_def)

text \<open>
  Claim C8. For every computed record, \<open>simple_yield_percent\<close> is the guarded quotient of
  cash flow and capex; it is always a number, never an infinity or NaN, also after the
  rounding; and it is 0 whenever capex is 0, whatever the cash flow is.
\<close>

theorem simple_yield_guarded:
  assumes "run_financial_projections t = Inr out"
  shows "\<exists>rows. project_table t = Inr rows \<and> settlements out = map round_columns rows \<and>
     set (viable_sites out) \<subseteq> set rows \<and>
     (\<forall>r\<in>set rows.
        simple_yield_percent r =
          simple_yield_of (annual_cashflow_usd r) (capex_estimate_usd r) \<and>
        (\<exists>y. simple_yield_percent r = Num y) \<and>
        (\<exists>y. simple_yield_percent (round_columns r) = Num y) \<and>
        (capex_estimate_usd r = Num 0 \<longrightarrow>
           simple_yield_percent r = Num 0 \<and> simple_yield_percent (round_columns r) = Num 0)) \<and>
     (\<forall>cashflow. simple_yield_of cashflow (Num 0) = Num 0)"
    (is "\<exists>rows. _ \<and> _ \<and> _ \<and> (\<forall>r\<in>set rows. ?P r) \<and> _")
proof -
  from run_rows [OF assms] obtain rows where rows: "project_table t = Inr rows"
    "length rows = length t"
    "settlements out = map round_columns rows" "viable_sites out = filter is_viable rows"
    and nth: "\<And>i. i < length t \<Longrightarrow>
        \<exists>n. customers_of (t ! i) = Inr n \<and> rows ! i = project_row (t ! i) n"
    by blast
  have zero: "round1 (Num 0) = Num 0"
    by (simp add: round1_def rint_def)
  have each: "?P r" if "r \<in> set rows" for r
  proof -
    from that obtain i where "i < length t" "r = rows ! i"
      using rows(2) by (auto simp: in_set_conv_nth)
    with nth obtain n where r: "r = project_row (t ! i) n"
      by blast
    have y: "simple_yield_percent r =
        simple_yield_of (annual_cashflow_usd r) (capex_estimate_usd r)"
      by (simp add: r project_row_fields(10))
    obtain v where v: "simple_yield_percent r = Num v"
      using simple_yield_of_number y by metis
    have rounded: "simple_yield_percent (round_columns r) = round1 (Num v)"
      by (simp add: round_columns_fields v)
    then have number: "\<exists>y. simple_yield_percent (round_columns r) = Num y"
      unfolding round1_number by (rule exI)
    have guard: "simple_yield_percent r = Num 0 \<and> simple_yield_percent (round_columns r) = Num 0"
      if "capex_estimate_usd r = Num 0"
      using that by (simp add: round_columns_fields y simple_yield_of_zero_capex zero)
    from y v number guard show ?thesis
      by blast
  qed
  have sub: "set (viable_sites out) \<subseteq> set rows"
    by (simp add: rows)
  have "\<forall>r\<in>set rows. ?P r"
    by (intro ballI) (rule each)
  with rows sub simple_yield_of_zero_capex show ?thesis
    by blast
qed

text \<open>
  The theorem at site Z of \<open>pipeline_sites\<close>, whose capex and cash flow are 0: the yield is
  0. With capex 0 the yield is 0 for a cash flow of 5 and of -5 as well.
\<close>

theorem simple_yield_guarded_witness:
  "run_financial_projections pipeline_sites =
     Inr \<lparr>settlements = map round_columns pipeline_rows, viable_sites = [pipeline_rows ! 0]\<rparr> \<and>
   capex_estimate_usd (pipeline_rows ! 1) = Num 0 \<and>
   annual_cashflow_usd (pipeline_rows ! 1) = Num 0 \<and>
   simple_yield_percent (pipeline_rows ! 1) = Num 0 \<and>
   simple_yield_percent (round_columns (pipeline_rows ! 1)) = Num 0 \<and>
   simple_yield_of (Num 5) (Num 0) = Num 0 \<and> simple_yield_of (Num (- 5)) (Num 0) = Num 0"
proof -
  from simple_yield_guarded [OF pipeline_run] obtain rows
    where rows: "project_table pipeline_sites = Inr rows"
      and each: "\<forall>r\<in>set rows. capex_estimate_usd r = Num 0 \<longrightarrow>
           simple_yield_percent r = Num 0 \<and> simple_yield_percent (round_columns r) = Num 0"
      and sign: "\<forall>cashflow. simple_yield_of cashflow (Num 0) = Num 0"
    by blast
  from rows have eq: "rows = pipeline_rows"
    by (rule pipeline_rows_unique)
  have z: "capex_estimate_usd (pipeline_rows ! 1) = Num 0"
    "annual_cashflow_usd (pipeline_rows ! 1) = Num 0"
    by (rule pipeline_row_Z)+
  with each eq pipeline_members(2)
  have "simple_yield_percent (pipeline_rows ! 1) = Num 0 \<and>
      simple_yield_percent (round_columns (pipeline_rows ! 1)) = Num 0"
    by blast
  with z sign pipeline_run show ?thesis
    by simp
qed

lemma marginal_site_row:
  "capex_estimate_usd (project_row (marginal_site ! 0) 1) = Num (240207 / 280)"
  "annual_cashflow_usd (project_row (marginal_site ! 0) 1) = Num (1062843 / 7000)"
  "payback_years (project_row (marginal_site ! 0) 1) = Num (240207 / 280 / (1062843 / 7000))"
  "npv_10yr_usd (project_row (marginal_site ! 0) 1) =
     Num (1062843 / 7000 * annuity_factor - 240207 / 280)"
  by (simp_all add: marginal_site_def row_eval)

lemma marginal_npv:
  "0 < 1062843 / 7000 * annuity_factor - 240207 / 280"
  "1062843 / 7000 * annuity_factor - 240207 / 280 < 1 / 20"
  by (simp_all add: annuity_factor_def constants power_int_def power_divide)

lemma rint_small: "0 < x \<Longrightarrow> x < 1 / 2 \<Longrightarrow> rint x = 0"
proof -
  assume x: "0 < x" "x < 1 / 2"
  then have "\<lfloor>x\<rfloor> = 0"
    by (simp add: floor_eq_iff)
  with x show ?thesis
    by (simp add: rint_def Let_def)
qed

lemma marginal_npv_rounded:
  "round1 (Num (1062843 / 7000 * annuity_factor - 240207 / 280)) = Num 0"
proof -
  let ?x = "(1062843 / 7000 * annuity_factor - 240207 / 280) * 10"
  have "0 < ?x" "?x < 1 / 2"
    using marginal_npv by simp_all
  then have "rint ?x = 0"
    by (rule rint_small)
  then show ?thesis
    by (simp only: round1_def fnum.case) simp
qed

lemma marginal_site_viable:
  "is_viable (project_row (marginal_site ! 0) 1)"
  "\<not> is_viable (round_columns (project_row (marginal_site ! 0) 1))"
proof -
  show "is_viable (project_row (marginal_site ! 0) 1)"
    using marginal_npv(1) by (simp add: is_viable_def marginal_site_row)
  have "npv_10yr_usd (round_columns (project_row (marginal_site ! 0) 1)) = Num 0"
    by (simp only: round_columns_fields marginal_site_row marginal_npv_rounded)
  then show "\<not> is_viable (round_columns (project_row (marginal_site ! 0) 1))"
    by (simp add: is_viable_def)
qed

lemma marginal_site_run:
  "run_financial_projections marginal_site =
     Inr \<lparr>settlements = [round_columns (project_row (marginal_site ! 0) 1)],
          viable_sites = [project_row (marginal_site ! 0) 1]\<rparr>"
proof -
  have tab: "project_table marginal_site = Inr [project_row (marginal_site ! 0) 1]"
    by (simp add: marginal_site_def customers_of_def astype_int_def toward_zero_def site_def
        blank_def of_cell_def constants)
  show ?thesis
    unfolding run_financial_projections_Inr using tab marginal_site_viable(1)
    by (simp add: marginal_site_def)
qed

lemma rounding_step_frame: "viable_sites (rounding_step st) = viable_sites st"
  by (simp add: rounding_step_def)

text \<open>
  Claim C10. The result of a run is the rounding step applied after the filter step. The
  rounding step does not touch \<open>viable_sites\<close>: the viable subset is selected on the
  computed, unrounded records and every record in it is one of those records, with every
  field as computed; only the full table is rounded.
\<close>

theorem rounding_after_selection:
  assumes "run_financial_projections t = Inr out"
  shows "\<exists>rows. project_table t = Inr rows \<and>
     out = rounding_step (filter_step rows) \<and>
     viable_sites out = viable_sites (filter_step rows) \<and>
     viable_sites out = filter is_viable rows \<and>
     settlements out = map round_columns rows \<and>
     (\<forall>v\<in>set (viable_sites out). v \<in> set rows \<and> is_viable v) \<and>
     (\<forall>st. viable_sites (rounding_step st) = viable_sites st)"
proof -
  from assms obtain rows where rows: "project_table t = Inr rows"
    and out: "settlements out = map round_columns rows" "viable_sites out = filter is_viable rows"
    unfolding run_financial_projections_Inr by blast
  have step: "out = rounding_step (filter_step rows)"
    using out by (cases out) (simp add: rounding_step_def filter_step_def)
  have "viable_sites out = viable_sites (filter_step rows)"
    by (simp add: out filter_step_def)
  with rows out step rounding_step_frame show ?thesis
    by (intro exI [of _ rows]) simp
qed

text \<open>
  The theorem at \<open>marginal_site\<close> (population 17, GHI 7, 4 km from the grid): the site
  is selected, on an NPV of about 0.018; in the full table its NPV is reported as 0.0,
  on which it would not have been selected.
\<close>

theorem rounding_after_selection_witness:
  "run_financial_projections marginal_site =
     Inr \<lparr>settlements = [round_columns (project_row (marginal_site ! 0) 1)],
          viable_sites = [project_row (marginal_site ! 0) 1]\<rparr> \<and>
   is_viable (project_row (marginal_site ! 0) 1) \<and>
   npv_10yr_usd (project_row (marginal_site ! 0) 1) =
     Num (1062843 / 7000 * annuity_factor - 240207 / 280) \<and>
   0 < 1062843 / 7000 * annuity_factor - 240207 / 280 \<and>
   npv_10yr_usd (round_columns (project_row (marginal_site ! 0) 1)) = Num 0 \<and>
   \<not> is_viable (round_columns (project_row (marginal_site ! 0) 1))"
proof -
  let ?out = "\<lparr>settlements = [round_columns (project_row (marginal_site ! 0) 1)],
          viable_sites = [project_row (marginal_site ! 0) 1]\<rparr>"
  from rounding_after_selection [OF marginal_site_run]
  have "\<forall>v\<in>set (viable_sites ?out). is_viable v"
    by blast
  then have "is_viable (project_row (marginal_site ! 0) 1)"
    by simp
  moreover have "npv_10yr_usd (round_columns (project_row (marginal_site ! 0) 1)) = Num 0"
    by (simp only: round_columns_fields marginal_site_row marginal_npv_rounded)
  ultimately show ?thesis
    using marginal_site_run marginal_site_row(4) marginal_npv(1) marginal_site_viable(2)
    by simp
qed

end
